theory Spec2Isabelle
  imports Complex_Main
begin

section \<open>Values and exceptions\<close>

text \<open>
  A Python float is modelled as \<open>NaN\<close> or as a number. Rounding, overflow, the two
  infinities and the sign of zero are outside this model: \<open>Num\<close> carries a real.
  Comparisons follow IEEE: every comparison with \<open>NaN\<close> is false.
\<close>

datatype fval = NaN | Num real

fun isnan :: "fval \<Rightarrow> bool" where
  "isnan NaN = True"
| "isnan (Num r) = False"

fun fadd :: "fval \<Rightarrow> fval \<Rightarrow> fval" where
  "fadd (Num x) (Num y) = Num (x + y)"
| "fadd u v = NaN"

fun fsub :: "fval \<Rightarrow> fval \<Rightarrow> fval" where
  "fsub (Num x) (Num y) = Num (x - y)"
| "fsub u v = NaN"

fun fmul :: "fval \<Rightarrow> fval \<Rightarrow> fval" where
  "fmul (Num x) (Num y) = Num (x * y)"
| "fmul u v = NaN"

text \<open>
  numpy divides by zero with a warning and returns an infinity or NaN; the model,
  which has no infinity, returns \<open>NaN\<close> for every division by zero.
\<close>

fun fdiv :: "fval \<Rightarrow> fval \<Rightarrow> fval" where
  "fdiv (Num x) (Num y) = (if y = 0 then NaN else Num (x / y))"
| "fdiv u v = NaN"

fun fabs :: "fval \<Rightarrow> fval" where
  "fabs (Num x) = Num \<bar>x\<bar>"
| "fabs NaN = NaN"

fun fgt :: "fval \<Rightarrow> fval \<Rightarrow> bool" where
  "fgt (Num x) (Num y) = (y < x)"
| "fgt u v = False"

text \<open>The detail of a \<open>ValueError\<close>, which \<open>update\<close> prints when it catches one.\<close>

datatype errmsg =
    Could_not_convert string
  | Data_length_mismatch
  | Max_empty_sequence
  | Shapes_not_aligned
  | Maxlen_negative

datatype pyexc = ValueError errmsg | StopIteration | TypeError | IndexError

section \<open>collections.deque with a maximum length\<close>

record 'a deque =
  dq_items :: "'a list"
  dq_maxlen :: nat

text \<open>\<open>deque(iterable, maxlen=n)\<close> keeps the last \<open>n\<close> elements of the iterable.\<close>

definition deque_init :: "'a list \<Rightarrow> nat \<Rightarrow> 'a deque" where
  "deque_init ys n = \<lparr>dq_items = drop (length ys - n) ys, dq_maxlen = n\<rparr>"

text \<open>
  \<open>appendleft\<close> puts the element in front and, when the deque is then longer than
  \<open>maxlen\<close>, drops elements from the right end; with \<open>maxlen = 0\<close> nothing is stored.
\<close>

definition appendleft :: "'a \<Rightarrow> 'a deque \<Rightarrow> 'a deque" where
  "appendleft v d = d\<lparr>dq_items := take (dq_maxlen d) (v # dq_items d)\<rparr>"

section \<open>LiveFilter and LiveLFilter\<close>

record lfilter =
  lf_b :: "fval list"
  lf_a :: "fval list"
  lf_xs :: "fval deque"
  lf_ys :: "fval deque"

text \<open>
  \<open>LiveLFilter.__init__(b, a)\<close>. With an empty \<open>a\<close> the second deque is asked for
  \<open>maxlen = -1\<close>, which raises \<open>ValueError\<close>.
\<close>

definition LiveLFilter_init :: "fval list \<Rightarrow> fval list \<Rightarrow> pyexc + lfilter" where
  "LiveLFilter_init b a =
     (if a = [] then Inl (ValueError Maxlen_negative)
      else Inr \<lparr>lf_b = b, lf_a = a,
                lf_xs = deque_init (replicate (length b) (Num 0)) (length b),
                lf_ys = deque_init (replicate (length a - 1) (Num 0)) (length a - 1)\<rparr>)"

fun fsum :: "fval list \<Rightarrow> fval" where
  "fsum [] = Num 0"
| "fsum (v # vs) = fadd v (fsum vs)"

text \<open>\<open>np.dot\<close> of two one-dimensional sequences; different lengths raise \<open>ValueError\<close>.\<close>

definition np_dot :: "fval list \<Rightarrow> fval list \<Rightarrow> pyexc + fval" where
  "np_dot u v =
     (if length u \<noteq> length v then Inl (ValueError Shapes_not_aligned)
      else Inr (fsum (map2 fmul u v)))"

text \<open>
  \<open>LiveLFilter._process\<close>. The filter object is mutated in place, so the result
  carries the filter as it is when the call returns or raises.
\<close>

definition LiveLFilter_process :: "lfilter \<Rightarrow> fval \<Rightarrow> lfilter \<times> (pyexc + fval)" where
  "LiveLFilter_process f x =
     (let f1 = f\<lparr>lf_xs := appendleft x (lf_xs f)\<rparr> in
      case np_dot (lf_b f1) (dq_items (lf_xs f1)) of
        Inl e \<Rightarrow> (f1, Inl e)
      | Inr s1 \<Rightarrow>
          (case np_dot (tl (lf_a f1)) (dq_items (lf_ys f1)) of
             Inl e \<Rightarrow> (f1, Inl e)
           | Inr s2 \<Rightarrow>
               (case lf_a f1 of
                  [] \<Rightarrow> (f1, Inl IndexError)
                | a0 # rest \<Rightarrow>
                    (let y = fdiv (fsub s1 s2) a0
                     in (f1\<lparr>lf_ys := appendleft y (lf_ys f1)\<rparr>, Inr y)))))"

text \<open>\<open>LiveFilter.process\<close>, which \<open>__call__\<close> forwards to.\<close>

definition LiveFilter_process :: "lfilter \<Rightarrow> fval \<Rightarrow> lfilter \<times> (pyexc + fval)" where
  "LiveFilter_process f x = (if isnan x then (f, Inr x) else LiveLFilter_process f x)"

text \<open>
  What \<open>__init__\<close> establishes and \<open>_process\<close> keeps: both delay lines are full,
  as long as their coefficient vectors ask.
\<close>

definition lfilter_ok :: "lfilter \<Rightarrow> bool" where
  "lfilter_ok f \<longleftrightarrow>
     lf_a f \<noteq> [] \<and>
     dq_maxlen (lf_xs f) = length (lf_b f) \<and> length (dq_items (lf_xs f)) = length (lf_b f) \<and>
     dq_maxlen (lf_ys f) = length (lf_a f) - 1 \<and>
     length (dq_items (lf_ys f)) = length (lf_a f) - 1"

section \<open>SignalVisualizer: state and observable actions\<close>

text \<open>The command strings \<open>"select"\<close> and \<open>"right"\<close>, and the values of \<open>active_gui\<close>.\<close>

datatype command = Cmd_select | Cmd_right

datatype gui = Launcher | Vkb | Notepad | Vscode | Mail

text \<open>The texts \<open>timer_label\<close> is set to.\<close>

datatype label = Initial_delay_label | Remaining int | Get_ready int | Timer_ready

text \<open>
  What \<open>print\<close> writes: \<open>Detected_countdown\<close> is "Detected during countdown: ...
  - Skipping (countdown)", \<open>Event_line\<close> is "enter (v)" or "right (v)", \<open>Skipping\<close>
  is "Skipping ... operation (n/2)", \<open>Error_processing\<close> is "Error processing data: ...",
  \<open>Ignoring_stored\<close> is "Ignoring stored command during countdown: ...".
\<close>

datatype message =
    Detected_countdown command fval
  | Event_line command fval
  | Skipping command int
  | Error_processing errmsg
  | Ignoring_stored "command option" fval

text \<open>
  The actions of a call that leave the object: a printed line, a line appended to
  \<open>enter.txt\<close> (\<open>Append_log Cmd_select\<close>) or \<open>right.txt\<close> (\<open>Append_log Cmd_right\<close>), a call of
  \<open>send_command\<close>, and the two launcher methods \<open>send_command\<close> may call.
\<close>

datatype effect =
    Print message
  | Append_log command fval
  | Send_command command
  | Move_to_next_button
  | Select_current_button

text \<open>
  The fields of \<open>SignalVisualizer\<close> that \<open>update\<close>, the timers' slots and
  \<open>send_command\<close> read or write. A timer field is true while the \<open>QTimer\<close> is
  running; a GUI field is true while the attribute holds a window. The two counters do
  not exist before \<open>start_initial_countdown\<close> has run; they are integers here, and no
  function below reads them before that. Plot curves are rendering only and left out.
\<close>

record visualizer =
  num_channels :: nat
  data :: "fval list list"
  filters :: "(lfilter \<times> lfilter) list"
  eye_open_min :: real
  eye_open_max :: real
  eye_blink_positive_min :: real
  eye_blink_positive_max :: real
  eye_blink_negative_min :: real
  eye_blink_negative_max :: real
  last_print_time :: real
  print_delay :: real
  eye_open_duration :: real
  last_blink_time :: real
  blink_cooldown :: real
  start_time :: real
  initial_delay :: real
  initial_delay_complete :: bool
  ready_for_operation :: bool
  null_operation_counter :: int
  countdown_signals_skipped :: int
  countdown_timer :: bool
  countdown_remaining :: int
  initial_countdown_timer :: bool
  initial_countdown_remaining :: int
  timer_label :: label
  potential_command :: "command option"
  potential_value :: "fval option"
  active_gui :: "gui option"
  launcher_gui :: bool
  vkb_gui :: bool
  notepad_gui :: bool
  vscode_gui :: bool
  mail_gui :: bool
  command_queue :: "command list"

type_synonym outcome = "visualizer \<times> effect list \<times> pyexc option"

text \<open>
  \<open>SignalVisualizer.__init__\<close> with \<open>setup_parameters\<close>. The coefficient vectors that
  scipy's \<open>iirfilter\<close> returns for the band-pass (\<open>b\<close>, \<open>a\<close>) and the band-stop
  (\<open>q\<close>, \<open>p\<close>) are parameters, and \<open>now\<close> is what \<open>time.time()\<close> returns.
\<close>

definition create_filters ::
  "fval list \<Rightarrow> fval list \<Rightarrow> fval list \<Rightarrow> fval list \<Rightarrow> pyexc + (lfilter \<times> lfilter)" where
  "create_filters b a q p =
     (case LiveLFilter_init b a of
        Inl e \<Rightarrow> Inl e
      | Inr live_lfilter_bp \<Rightarrow>
          (case LiveLFilter_init q p of
             Inl e \<Rightarrow> Inl e
           | Inr live_lfilter_notch \<Rightarrow> Inr (live_lfilter_bp, live_lfilter_notch)))"

fun create_all_filters ::
  "nat \<Rightarrow> fval list \<Rightarrow> fval list \<Rightarrow> fval list \<Rightarrow> fval list
     \<Rightarrow> pyexc + (lfilter \<times> lfilter) list" where
  "create_all_filters 0 b a q p = Inr []"
| "create_all_filters (Suc n) b a q p =
     (case create_filters b a q p of
        Inl e \<Rightarrow> Inl e
      | Inr fs \<Rightarrow>
          (case create_all_filters n b a q p of
             Inl e \<Rightarrow> Inl e
           | Inr rest \<Rightarrow> Inr (fs # rest)))"

definition SignalVisualizer_init ::
  "nat \<Rightarrow> nat \<Rightarrow> fval list \<Rightarrow> fval list \<Rightarrow> fval list \<Rightarrow> fval list \<Rightarrow> real
     \<Rightarrow> pyexc + visualizer" where
  "SignalVisualizer_init channels data_length b a q p now =
     (case create_all_filters channels b a q p of
        Inl e \<Rightarrow> Inl e
      | Inr fl \<Rightarrow>
          Inr \<lparr>num_channels = channels,
               data = replicate channels (replicate data_length (Num 0)),
               filters = fl,
               eye_open_min = -100,
               eye_open_max = 100,
               eye_blink_positive_min = 120,
               eye_blink_positive_max = 275,
               eye_blink_negative_min = -120,
               eye_blink_negative_max = -220,
               last_print_time = 0,
               print_delay = 3,
               eye_open_duration = 5,
               last_blink_time = 0,
               blink_cooldown = 1,
               start_time = now,
               initial_delay = 5,
               initial_delay_complete = False,
               ready_for_operation = False,
               null_operation_counter = 0,
               countdown_signals_skipped = 0,
               countdown_timer = False,
               countdown_remaining = 0,
               initial_countdown_timer = False,
               initial_countdown_remaining = 3,
               timer_label = Initial_delay_label,
               potential_command = None,
               potential_value = None,
               active_gui = None,
               launcher_gui = False,
               vkb_gui = False,
               notepad_gui = False,
               vscode_gui = False,
               mail_gui = False,
               command_queue = []\<rparr>)"

section \<open>Timers and the command sink\<close>

definition start_countdown :: "visualizer \<Rightarrow> visualizer" where
  "start_countdown st =
     st\<lparr>countdown_remaining := 3, countdown_timer := True, timer_label := Remaining 3\<rparr>"

definition update_countdown :: "visualizer \<Rightarrow> visualizer" where
  "update_countdown st =
     (let st1 = st\<lparr>countdown_remaining := countdown_remaining st - 1\<rparr> in
      if countdown_remaining st1 > 0
      then st1\<lparr>timer_label := Remaining (countdown_remaining st1)\<rparr>
      else st1\<lparr>countdown_timer := False, timer_label := Timer_ready\<rparr>)"

text \<open>
  \<open>send_command\<close>. The call itself is recorded first; the launcher's methods are
  called directly, every other active window is reached through \<open>command_queue\<close>.
\<close>

definition send_command :: "visualizer \<Rightarrow> command \<Rightarrow> visualizer \<times> effect list" where
  "send_command st c =
     (if active_gui st = Some Launcher \<and> launcher_gui st then
        (if c = Cmd_right then (st, [Send_command c, Move_to_next_button])
         else if c = Cmd_select then (st, [Send_command c, Select_current_button])
         else (st, [Send_command c]))
      else if active_gui st = Some Vkb \<and> vkb_gui st then
        (st\<lparr>command_queue := command_queue st @ [c]\<rparr>, [Send_command c])
      else if active_gui st = Some Notepad \<and> notepad_gui st then
        (st\<lparr>command_queue := command_queue st @ [c]\<rparr>, [Send_command c])
      else if active_gui st = Some Vscode \<and> vscode_gui st then
        (st\<lparr>command_queue := command_queue st @ [c]\<rparr>, [Send_command c])
      else if active_gui st = Some Mail \<and> mail_gui st then
        (st\<lparr>command_queue := command_queue st @ [c]\<rparr>, [Send_command c])
      else (st, [Send_command c]))"

definition start_initial_countdown :: "visualizer \<Rightarrow> visualizer" where
  "start_initial_countdown st =
     st\<lparr>initial_countdown_remaining := 3, initial_countdown_timer := True,
        timer_label := Get_ready 3,
        null_operation_counter := 0, countdown_signals_skipped := 0\<rparr>"

text \<open>
  \<open>update_initial_countdown\<close>. \<open>hasattr(self, 'potential_command')\<close> is always true,
  since \<open>__init__\<close> assigns the attribute. Formatting \<open>potential_value\<close> with
  \<open>:.3f\<close> raises \<open>TypeError\<close> when it is \<open>None\<close>; the flag is already set then.
\<close>

definition update_initial_countdown :: "visualizer \<Rightarrow> outcome" where
  "update_initial_countdown st =
     (let st1 = st\<lparr>initial_countdown_remaining := initial_countdown_remaining st - 1\<rparr> in
      if initial_countdown_remaining st1 > 0
      then (st1\<lparr>timer_label := Get_ready (initial_countdown_remaining st1)\<rparr>, [], None)
      else
        (let st2 = st1\<lparr>initial_countdown_timer := False, timer_label := Timer_ready,
                        ready_for_operation := True\<rparr> in
         case potential_value st2 of
           None \<Rightarrow> (st2, [], Some TypeError)
         | Some v \<Rightarrow>
             (st2\<lparr>potential_command := None, potential_value := None\<rparr>,
              [Print (Ignoring_stored (potential_command st2) v)], None)))"

section \<open>Reading a record\<close>

text \<open>\<open>str.split("\t")\<close>: the fields between tab characters, always at least one.\<close>

fun split_tab :: "string \<Rightarrow> string list" where
  "split_tab [] = [[]]"
| "split_tab (c # cs) =
     (if c = CHR 0x09 then [] # split_tab cs
      else (case split_tab cs of
              [] \<Rightarrow> [[c]]
            | fld # flds \<Rightarrow> (c # fld) # flds))"

text \<open>
  Python's builtin \<open>float\<close> on a string is a parameter: \<open>None\<close> stands for the
  \<open>ValueError\<close> it raises. The list comprehension stops at the first field that
  fails.
\<close>

type_synonym float_parser = "string \<Rightarrow> fval option"

fun parse_fields :: "float_parser \<Rightarrow> string list \<Rightarrow> pyexc + fval list" where
  "parse_fields pf [] = Inr []"
| "parse_fields pf (fld # flds) =
     (case pf fld of
        None \<Rightarrow> Inl (ValueError (Could_not_convert fld))
      | Some v \<Rightarrow>
          (case parse_fields pf flds of
             Inl e \<Rightarrow> Inl e
           | Inr vs \<Rightarrow> Inr (v # vs)))"

text \<open>
  A fragment of \<open>float\<close> for concrete evaluations: on each of these strings Python
  returns the value given, and \<open>float("abc")\<close> and \<open>float("")\<close> raise \<open>ValueError\<close>.
  No other string is used with it.
\<close>

definition float_fragment :: float_parser where
  "float_fragment fld =
     (if fld = ''0'' then Some (Num 0)
      else if fld = ''50'' then Some (Num 50)
      else if fld = ''200'' then Some (Num 200)
      else if fld = ''250'' then Some (Num 250)
      else if fld = ''nan'' then Some NaN
      else None)"

section \<open>Conditioning the channels\<close>

text \<open>
  One pass of the loop over the channels in \<open>update\<close>: band-pass, then notch, then
  the display buffer is rolled by one and its last cell overwritten. Indexing
  \<open>self.filters\<close>, \<open>self.data\<close> or an empty buffer out of range raises
  \<open>IndexError\<close>; what was mutated before stays mutated.
\<close>

definition condition_channel :: "visualizer \<Rightarrow> fval list \<Rightarrow> nat \<Rightarrow> visualizer \<times> (pyexc + fval)" where
  "condition_channel st data_values i =
     (if length (filters st) \<le> i then (st, Inl IndexError)
      else
        (case filters st ! i of (bp, notch) \<Rightarrow>
           (case LiveFilter_process bp (data_values ! i) of
              (bp1, Inl e) \<Rightarrow> (st\<lparr>filters := (filters st)[i := (bp1, notch)]\<rparr>, Inl e)
            | (bp1, Inr v1) \<Rightarrow>
                (case LiveFilter_process notch v1 of
                   (notch1, Inl e) \<Rightarrow> (st\<lparr>filters := (filters st)[i := (bp1, notch1)]\<rparr>, Inl e)
                 | (notch1, Inr filtered_value) \<Rightarrow>
                     (let st1 = st\<lparr>filters := (filters st)[i := (bp1, notch1)]\<rparr> in
                      if length (data st1) \<le> i then (st1, Inl IndexError)
                      else if data st1 ! i = [] then (st1, Inl IndexError)
                      else (st1\<lparr>data := (data st1)[i := tl (data st1 ! i) @ [filtered_value]]\<rparr>,
                            Inr filtered_value))))))"

fun condition_channels ::
  "visualizer \<Rightarrow> fval list \<Rightarrow> nat list \<Rightarrow> fval list \<Rightarrow> visualizer \<times> (pyexc + fval list)" where
  "condition_channels st data_values [] filtered_values = (st, Inr filtered_values)"
| "condition_channels st data_values (i # rest) filtered_values =
     (case condition_channel st data_values i of
        (st1, Inl e) \<Rightarrow> (st1, Inl e)
      | (st1, Inr filtered_value) \<Rightarrow>
          condition_channels st1 data_values rest (filtered_values @ [filtered_value]))"

section \<open>Classification\<close>

text \<open>The chained comparison \<open>lo <= value <= hi\<close>.\<close>

fun between :: "real \<Rightarrow> fval \<Rightarrow> real \<Rightarrow> bool" where
  "between lo (Num x) hi = (lo \<le> x \<and> x \<le> hi)"
| "between lo NaN hi = False"

text \<open>\<open>all(self.eye_open_min <= value <= self.eye_open_max for value in filtered_values)\<close>\<close>

definition all_eye_open :: "visualizer \<Rightarrow> fval list \<Rightarrow> bool" where
  "all_eye_open st filtered_values =
     list_all (\<lambda>value. between (eye_open_min st) value (eye_open_max st)) filtered_values"

text \<open>
  The \<open>any(...)\<close> over the raw values; \<open>eye_blink_negative_min >= value >=
  eye_blink_negative_max\<close> is \<open>eye_blink_negative_max <= value <= eye_blink_negative_min\<close>.
\<close>

definition any_eye_blink :: "visualizer \<Rightarrow> fval list \<Rightarrow> bool" where
  "any_eye_blink st data_values =
     list_ex (\<lambda>value. between (eye_blink_positive_min st) value (eye_blink_positive_max st) \<or>
                     between (eye_blink_negative_max st) value (eye_blink_negative_min st))
       data_values"

text \<open>\<open>max(filtered_values, key=abs)\<close>: the first element whose key no later key exceeds.\<close>

fun max_key_abs_from :: "fval \<Rightarrow> fval list \<Rightarrow> fval" where
  "max_key_abs_from m [] = m"
| "max_key_abs_from m (v # vs) = max_key_abs_from (if fgt (fabs v) (fabs m) then v else m) vs"

definition max_key_abs :: "fval list \<Rightarrow> pyexc + fval" where
  "max_key_abs vs =
     (case vs of
        [] \<Rightarrow> Inl (ValueError Max_empty_sequence)
      | v # rest \<Rightarrow> Inr (max_key_abs_from v rest))"

text \<open>
  \<open>next(value for value in filtered_values if value > eye_open_max or value <
  eye_open_min)\<close>: \<open>StopIteration\<close> when no value qualifies.
\<close>

fun next_outside :: "real \<Rightarrow> real \<Rightarrow> fval list \<Rightarrow> pyexc + fval" where
  "next_outside lo hi [] = Inl StopIteration"
| "next_outside lo hi (value # rest) =
     (if fgt value (Num hi) \<or> fgt (Num lo) value then Inr value
      else next_outside lo hi rest)"

text \<open>
  The branch of \<open>update\<close> taken while \<open>ready_for_operation\<close> is false (the initial
  countdown): a detection is stored as the potential command and counted, never sent.
\<close>

definition update_not_ready :: "visualizer \<Rightarrow> real \<Rightarrow> fval list \<Rightarrow> fval list \<Rightarrow> outcome" where
  "update_not_ready st current_time data_values filtered_values =
     (if potential_command st = None then
        (if all_eye_open st filtered_values then
           (if current_time - last_print_time st \<ge> eye_open_duration st then
              (case max_key_abs filtered_values of
                 Inl e \<Rightarrow> (st, [], Some e)
               | Inr trigger_value \<Rightarrow>
                   (st\<lparr>potential_command := Some Cmd_select,
                       potential_value := Some trigger_value,
                       countdown_signals_skipped := countdown_signals_skipped st + 1\<rparr>,
                    [Print (Detected_countdown Cmd_select trigger_value)], None))
            else (st, [], None))
         else if any_eye_blink st data_values then
           (case next_outside (eye_open_min st) (eye_open_max st) filtered_values of
              Inl e \<Rightarrow> (st, [], Some e)
            | Inr trigger_value \<Rightarrow>
                (st\<lparr>potential_command := Some Cmd_right,
                    potential_value := Some trigger_value,
                    countdown_signals_skipped := countdown_signals_skipped st + 1\<rparr>,
                 [Print (Detected_countdown Cmd_right trigger_value)], None))
         else (st, [], None))
      else (st, [], None))"

text \<open>The rest of the \<open>try\<close> block, reached once \<open>ready_for_operation\<close> is true.\<close>

definition update_ready :: "visualizer \<Rightarrow> real \<Rightarrow> fval list \<Rightarrow> fval list \<Rightarrow> outcome" where
  "update_ready st current_time data_values filtered_values =
     (if current_time - last_print_time st \<ge> print_delay st then
        (if all_eye_open st filtered_values then
           (if current_time - last_print_time st \<ge> eye_open_duration st then
              (case max_key_abs filtered_values of
                 Inl e \<Rightarrow> (st, [], Some e)
               | Inr trigger_value \<Rightarrow>
                   (let st1 = st\<lparr>last_print_time := current_time\<rparr>;
                        logged = [Print (Event_line Cmd_select trigger_value),
                                  Append_log Cmd_select trigger_value]
                    in if countdown_signals_skipped st1 + null_operation_counter st1 < 2 then
                         (let st2 = st1\<lparr>null_operation_counter := null_operation_counter st1 + 1\<rparr>
                          in (start_countdown st2,
                              logged @ [Print (Skipping Cmd_select
                                 (countdown_signals_skipped st2 + null_operation_counter st2))],
                              None))
                       else
                         (case send_command st1 Cmd_select of
                            (st2, sent) \<Rightarrow> (start_countdown st2, logged @ sent, None))))
            else (st, [], None))
         else if any_eye_blink st data_values then
           (case next_outside (eye_open_min st) (eye_open_max st) filtered_values of
              Inl e \<Rightarrow> (st, [], Some e)
            | Inr trigger_value \<Rightarrow>
                (let st1 = st\<lparr>last_print_time := current_time\<rparr>;
                     logged = [Print (Event_line Cmd_right trigger_value),
                               Append_log Cmd_right trigger_value]
                 in if countdown_signals_skipped st1 + null_operation_counter st1 < 2 then
                      (let st2 = st1\<lparr>null_operation_counter := null_operation_counter st1 + 1\<rparr>
                       in (start_countdown st2,
                           logged @ [Print (Skipping Cmd_right
                              (countdown_signals_skipped st2 + null_operation_counter st2))],
                           None))
                    else if current_time - last_blink_time st1 \<ge> blink_cooldown st1 then
                      (case send_command st1 Cmd_right of
                         (st2, sent) \<Rightarrow>
                           (start_countdown (st2\<lparr>last_blink_time := current_time\<rparr>),
                            logged @ sent, None))
                    else (start_countdown st1, logged, None)))
         else (st, [], None))
      else (st, [], None))"

section \<open>SignalVisualizer.update\<close>

text \<open>
  The body of the \<open>try\<close> block: parse, check the field count, condition every
  channel, classify. \<open>current_time\<close> is what \<open>time.time()\<close> returns in this call.
\<close>

definition update_try :: "float_parser \<Rightarrow> visualizer \<Rightarrow> real \<Rightarrow> string \<Rightarrow> outcome" where
  "update_try pf st current_time line =
     (case parse_fields pf (split_tab line) of
        Inl e \<Rightarrow> (st, [], Some e)
      | Inr data_values \<Rightarrow>
          (if length data_values \<noteq> num_channels st
           then (st, [], Some (ValueError Data_length_mismatch))
           else
             (case condition_channels st data_values [0..<num_channels st] [] of
                (st1, Inl e) \<Rightarrow> (st1, [], Some e)
              | (st1, Inr filtered_values) \<Rightarrow>
                  (if \<not> ready_for_operation st1
                   then update_not_ready st1 current_time data_values filtered_values
                   else update_ready st1 current_time data_values filtered_values))))"

text \<open>
  The handler of the \<open>try\<close> block: \<open>except ValueError as e\<close> prints the error and
  the call returns; every other exception leaves the slot.
\<close>

definition except_ValueError :: "outcome \<Rightarrow> outcome" where
  "except_ValueError r =
     (case r of
        (st1, effs, Some (ValueError m)) \<Rightarrow> (st1, effs @ [Print (Error_processing m)], None)
      | (st1, effs, other) \<Rightarrow> (st1, effs, other))"

text \<open>
  \<open>update(data)\<close>: the warm-up gate, the test for an empty line, and the \<open>try\<close>
  block with its handler.
\<close>

definition update :: "float_parser \<Rightarrow> visualizer \<Rightarrow> real \<Rightarrow> string \<Rightarrow> outcome" where
  "update pf st now line =
     (if \<not> initial_delay_complete st then
        (if now - start_time st \<ge> initial_delay st then
           (let st1 = st\<lparr>initial_delay_complete := True\<rparr>;
                st2 = start_initial_countdown st1
            in (st2\<lparr>null_operation_counter := 0, countdown_signals_skipped := 0\<rparr>, [], None))
         else (st, [], None))
      else if line \<noteq> [CHR 0x0D, CHR 0x0A] \<and> line \<noteq> [] \<and> line \<noteq> [CHR 0x0A] then
        except_ValueError (update_try pf st now line)
      else (st, [], None))"

section \<open>Sessions\<close>

text \<open>
  What the single control thread handles, one at a time: a line from the serial
  thread (with the clock's reading in that call) and the timeouts of the two timers.
  A \<open>QTimer\<close> that is not running sends no timeout. An exception that leaves a slot
  is reported by the step and the session goes on with the object as it then is.
\<close>

datatype input = Data_ready real string | Initial_timeout | Countdown_timeout

fun step :: "float_parser \<Rightarrow> visualizer \<Rightarrow> input \<Rightarrow> outcome" where
  "step pf st (Data_ready now line) = update pf st now line"
| "step pf st Initial_timeout =
     (if initial_countdown_timer st then update_initial_countdown st else (st, [], None))"
| "step pf st Countdown_timeout =
     (if countdown_timer st then (update_countdown st, [], None) else (st, [], None))"

text \<open>The trace of a session: each input with the actions and the exception of its step.\<close>

type_synonym entry = "input \<times> effect list \<times> pyexc option"

fun run :: "float_parser \<Rightarrow> visualizer \<Rightarrow> input list \<Rightarrow> entry list" where
  "run pf st [] = []"
| "run pf st (i # rest) =
     (case step pf st i of (st1, effs, exc) \<Rightarrow> (i, effs, exc) # run pf st1 rest)"

text \<open>The object at the end of a session.\<close>

fun final :: "float_parser \<Rightarrow> visualizer \<Rightarrow> input list \<Rightarrow> visualizer" where
  "final pf st [] = st"
| "final pf st (i # rest) = (case step pf st i of (st1, effs, exc) \<Rightarrow> final pf st1 rest)"

section \<open>Observations on a step\<close>

text \<open>
  A step holds an event when a classification rule matched and was acted on: during
  the initial countdown the match is printed and counted in
  \<open>countdown_signals_skipped\<close>; once ready it is printed and appended to its log file.
\<close>

fun rule_matched :: "effect \<Rightarrow> bool" where
  "rule_matched (Print (Detected_countdown c v)) = True"
| "rule_matched (Append_log c v) = True"
| "rule_matched e = False"

definition is_event :: "effect list \<Rightarrow> bool" where
  "is_event effs = list_ex rule_matched effs"

text \<open>A step in which \<open>send_command\<close> was called.\<close>

definition is_sent :: "effect list \<Rightarrow> bool" where
  "is_sent effs = list_ex (\<lambda>e. e = Send_command Cmd_select \<or> e = Send_command Cmd_right) effs"

text \<open>The two entries of the trace that the theorems on sessions count.\<close>

definition entry_event :: "entry \<Rightarrow> bool" where
  "entry_event en = is_event (fst (snd en))"

definition entry_sent :: "entry \<Rightarrow> bool" where
  "entry_sent en = is_sent (fst (snd en))"

text \<open>The clock's reading when a step called \<open>send_command("right")\<close>, if it did.\<close>

fun right_sent_at :: "entry \<Rightarrow> real option" where
  "right_sent_at (Data_ready now line, effs, exc) =
     (if Send_command Cmd_right \<in> set effs then Some now else None)"
| "right_sent_at (i, effs, exc) = None"

text \<open>The potential command and its value are assigned together.\<close>

definition potential_paired :: "visualizer \<Rightarrow> bool" where
  "potential_paired st \<longleftrightarrow> (potential_command st = None) = (potential_value st = None)"

section \<open>Concrete objects for evaluation\<close>


text \<open>
  A two-channel session as \<open>__init__\<close> builds it at clock reading 0, with display
  buffers of two samples, a band-pass of gain 1/2 (\<open>b = [1/2, 0]\<close>, \<open>a = [1, 0]\<close>) and
  a notch that passes its input (\<open>q = [1]\<close>, \<open>p = [1]\<close>).
\<close>

definition half_gain :: lfilter where
  "half_gain =
     \<lparr>lf_b = [Num (1 / 2), Num 0], lf_a = [Num 1, Num 0],
      lf_xs = \<lparr>dq_items = [Num 0, Num 0], dq_maxlen = 2\<rparr>,
      lf_ys = \<lparr>dq_items = [Num 0], dq_maxlen = 1\<rparr>\<rparr>"

definition pass_through :: lfilter where
  "pass_through =
     \<lparr>lf_b = [Num 1], lf_a = [Num 1],
      lf_xs = \<lparr>dq_items = [Num 0], dq_maxlen = 1\<rparr>,
      lf_ys = \<lparr>dq_items = [], dq_maxlen = 0\<rparr>\<rparr>"

definition session_start :: visualizer where
  "session_start =
     \<lparr>num_channels = 2,
      data = [[Num 0, Num 0], [Num 0, Num 0]],
      filters = [(half_gain, pass_through), (half_gain, pass_through)],
      eye_open_min = -100,
      eye_open_max = 100,
      eye_blink_positive_min = 120,
      eye_blink_positive_max = 275,
      eye_blink_negative_min = -120,
      eye_blink_negative_max = -220,
      last_print_time = 0,
      print_delay = 3,
      eye_open_duration = 5,
      last_blink_time = 0,
      blink_cooldown = 1,
      start_time = 0,
      initial_delay = 5,
      initial_delay_complete = False,
      ready_for_operation = False,
      null_operation_counter = 0,
      countdown_signals_skipped = 0,
      countdown_timer = False,
      countdown_remaining = 0,
      initial_countdown_timer = False,
      initial_countdown_remaining = 3,
      timer_label = Initial_delay_label,
      potential_command = None,
      potential_value = None,
      active_gui = None,
      launcher_gui = False,
      vkb_gui = False,
      notepad_gui = False,
      vscode_gui = False,
      mail_gui = False,
      command_queue = []\<rparr>"

text \<open>The lines used below: tab-separated fields.\<close>

definition line_0_0 :: string where
  "line_0_0 = [CHR ''0'', CHR 0x09, CHR ''0'']"

definition line_200_0 :: string where
  "line_200_0 = [CHR ''2'', CHR ''0'', CHR ''0'', CHR 0x09, CHR ''0'']"

definition line_250_0 :: string where
  "line_250_0 = [CHR ''2'', CHR ''5'', CHR ''0'', CHR 0x09, CHR ''0'']"

definition line_nan_200 :: string where
  "line_nan_200 = [CHR ''n'', CHR ''a'', CHR ''n'', CHR 0x09, CHR ''2'', CHR ''0'', CHR ''0'']"

text \<open>
  The warm-up ends with the first line at clock reading 5; a line during the initial
  countdown is detected as "select" and stored; the third timeout makes the object
  ready.
\<close>

definition until_ready :: "input list" where
  "until_ready =
     [Data_ready 5 line_0_0, Data_ready 6 line_0_0,
      Initial_timeout, Initial_timeout, Initial_timeout]"

text \<open>
  The object at the end of \<open>until_ready\<close>: ready, one detection counted during the
  countdown, the stored command discarded; the two lines read were all zeros, so the
  filters and the display buffers hold zeros as at the start.
\<close>

definition session_ready :: visualizer where
  "session_ready =
     session_start
       \<lparr>initial_delay_complete := True,
        ready_for_operation := True,
        countdown_signals_skipped := 1,
        initial_countdown_remaining := 0,
        timer_label := Timer_ready\<rparr>"

text \<open>
  A session that goes on after \<open>until_ready\<close>: a "select" event that is skipped, a
  line with a raw excursion whose filtered values stay neutral, a "select" event that
  is sent, and two "right" events three seconds apart.
\<close>

definition whole_session :: "input list" where
  "whole_session =
     until_ready @
     [Data_ready 10 line_0_0, Data_ready 13 line_200_0, Data_ready 15 line_0_0,
      Data_ready 18 line_250_0, Data_ready 21 line_250_0]"

text \<open>\<open>until_ready\<close> without its last timeout: a "select" detection is pending.\<close>

definition before_ready :: "input list" where
  "before_ready =
     [Data_ready 5 line_0_0, Data_ready 6 line_0_0, Initial_timeout, Initial_timeout]"

text \<open>
  The object after \<open>until_ready\<close> and one more line of zeros at clock reading 10: the
  "select" event of that line was logged and skipped, and it set \<open>last_print_time\<close>.
\<close>

definition session_after_skip :: visualizer where
  "session_after_skip =
     session_ready
       \<lparr>last_print_time := 10,
        null_operation_counter := 1,
        countdown_timer := True,
        countdown_remaining := 3,
        timer_label := Remaining 3\<rparr>"

section \<open>The filter step\<close>

lemma LiveLFilter_init_ok: "LiveLFilter_init b a = Inr f \<Longrightarrow> lfilter_ok f"
  by (auto simp: LiveLFilter_init_def lfilter_ok_def deque_init_def split: if_splits)

lemma LiveLFilter_process_ok:
  assumes "lfilter_ok f"
  shows "lfilter_ok (fst (LiveLFilter_process f x))"
  using assms
  by (cases "lf_a f")
     (simp_all add: lfilter_ok_def LiveLFilter_process_def np_dot_def appendleft_def Let_def)

lemma LiveFilter_process_ok: "lfilter_ok f \<Longrightarrow> lfilter_ok (fst (LiveFilter_process f x))"
  by (simp add: LiveFilter_process_def LiveLFilter_process_ok)

text \<open>
  C9. For a NaN input the step function returns the input and leaves the filter, with
  both delay lines, exactly as it was.
\<close>

theorem process_nan_passthrough: "LiveFilter_process f NaN = (f, Inr NaN)"
  by (simp add: LiveFilter_process_def)



section \<open>Warm-up\<close>

text \<open>
  C7. While \<open>initial_delay_complete\<close> is false, \<open>update\<close> drops the line whatever it
  is: no filter, display buffer or command queue changes, nothing is printed, logged
  or sent, and no exception is raised. A line that arrives before \<open>initial_delay\<close>
  seconds have passed leaves the whole object as it was; the first line after that
  only starts the initial countdown.
\<close>

theorem warm_up_discards:
  assumes "\<not> initial_delay_complete st"
  shows "update pf st now line =
           ((if initial_delay st \<le> now - start_time st
             then st\<lparr>initial_delay_complete := True, initial_countdown_remaining := 3,
                    initial_countdown_timer := True, timer_label := Get_ready 3,
                    null_operation_counter := 0, countdown_signals_skipped := 0\<rparr>
             else st), [], None)
         \<and> filters (fst (update pf st now line)) = filters st
         \<and> data (fst (update pf st now line)) = data st
         \<and> command_queue (fst (update pf st now line)) = command_queue st
         \<and> ready_for_operation (fst (update pf st now line)) = ready_for_operation st
         \<and> (now - start_time st < initial_delay st \<longrightarrow> fst (update pf st now line) = st)"
  using assms by (simp add: update_def start_initial_countdown_def Let_def)

theorem warm_up_discards_witness:
  "\<not> initial_delay_complete session_start
   \<and> update float_fragment session_start 4 line_250_0 = (session_start, [], None)
   \<and> update float_fragment session_start 5 line_250_0 =
       (session_start\<lparr>initial_delay_complete := True, initial_countdown_remaining := 3,
                    initial_countdown_timer := True, timer_label := Get_ready 3,
                    null_operation_counter := 0, countdown_signals_skipped := 0\<rparr>, [], None)"
proof -
  have h: "\<not> initial_delay_complete session_start" by (simp add: session_start_def)
  show ?thesis
    using h warm_up_discards [OF h, of float_fragment 4 line_250_0]
      warm_up_discards [OF h, of float_fragment 5 line_250_0]
    by (simp add: session_start_def)
qed

section \<open>The ways a call can end\<close>

text \<open>
  \<open>send_command\<close> changes the command queue at most, and its actions are the call
  itself followed by launcher calls.
\<close>

lemma send_command_shape:
  "send_command st c =
     (st\<lparr>command_queue := command_queue (fst (send_command st c))\<rparr>,
      Send_command c # tl (snd (send_command st c)))
   \<and> list_all (\<lambda>e. e = Move_to_next_button \<or> e = Select_current_button)
        (tl (snd (send_command st c)))"
  by (cases c) (simp_all add: send_command_def)

lemma send_command_facts:
  assumes "send_command st c = (st2, sent)"
  shows "st2 = st\<lparr>command_queue := command_queue st2\<rparr>"
    and "is_sent sent" and "\<not> is_event sent"
    and "(Send_command c' \<in> set sent) = (c' = c)"
proof -
  obtain rest where s: "sent = Send_command c # rest"
    and r: "list_all (\<lambda>e. e = Move_to_next_button \<or> e = Select_current_button) rest"
    and q: "st2 = st\<lparr>command_queue := command_queue st2\<rparr>"
    using send_command_shape [of st c] assms by (metis fst_conv snd_conv)
  show "st2 = st\<lparr>command_queue := command_queue st2\<rparr>" by (rule q)
  show "is_sent sent" by (cases c) (simp_all add: is_sent_def s)
  have "\<not> list_ex rule_matched rest"
    using r by (induction rest) auto
  then show "\<not> is_event sent" by (simp add: is_event_def s)
  have "Send_command c' \<notin> set rest"
    using r by (induction rest) auto
  then show "(Send_command c' \<in> set sent) = (c' = c)"
    by (auto simp: s)
qed

text \<open>The exceptions of the two selections of a trigger value.\<close>

lemma next_outside_error: "next_outside lo hi vs = Inl e \<Longrightarrow> e = StopIteration"
  by (induction vs) (auto split: if_splits)

lemma max_key_abs_error: "max_key_abs vs = Inl e \<Longrightarrow> e = ValueError Max_empty_sequence"
  by (cases vs) (simp_all add: max_key_abs_def)

lemma max_key_abs_empty: "(\<exists>e. max_key_abs vs = Inl e) = (vs = [])"
  by (cases vs) (simp_all add: max_key_abs_def)

text \<open>
  Every call of the ready branch ends in one of five ways: nothing happens; the
  selection of the trigger value raises; an event is logged and skipped by the
  first-two policy; an event is logged and sent; a "right" event is logged and held
  back by the blink cooldown.
\<close>

lemma update_ready_cases:
  assumes u: "update_ready st now dv fv = (st1, effs, exc)"
  obtains
    (quiet) "st1 = st" "effs = []" "exc = None"
      "\<not> print_delay st \<le> now - last_print_time st
       \<or> all_eye_open st fv \<and> \<not> eye_open_duration st \<le> now - last_print_time st
       \<or> \<not> all_eye_open st fv \<and> \<not> any_eye_blink st dv"
  | (raised) e where "st1 = st" "effs = []" "exc = Some e"
      "print_delay st \<le> now - last_print_time st"
      "e = StopIteration \<and> \<not> all_eye_open st fv \<and> any_eye_blink st dv
          \<and> next_outside (eye_open_min st) (eye_open_max st) fv = Inl StopIteration
       \<or> e = ValueError Max_empty_sequence \<and> all_eye_open st fv
          \<and> eye_open_duration st \<le> now - last_print_time st \<and> fv = []"
  | (skipped) c v where
      "print_delay st \<le> now - last_print_time st"
      "countdown_signals_skipped st + null_operation_counter st < 2"
      "st1 = start_countdown (st\<lparr>last_print_time := now,
               null_operation_counter := null_operation_counter st + 1\<rparr>)"
      "effs = [Print (Event_line c v), Append_log c v,
               Print (Skipping c (countdown_signals_skipped st + null_operation_counter st + 1))]"
      "exc = None"
      "c = Cmd_select \<and> all_eye_open st fv \<and> eye_open_duration st \<le> now - last_print_time st
          \<and> fv \<noteq> []
       \<or> c = Cmd_right \<and> \<not> all_eye_open st fv \<and> any_eye_blink st dv
          \<and> next_outside (eye_open_min st) (eye_open_max st) fv = Inr v"
  | (emitted) c v st2 sent where
      "print_delay st \<le> now - last_print_time st"
      "\<not> countdown_signals_skipped st + null_operation_counter st < 2"
      "send_command (st\<lparr>last_print_time := now\<rparr>) c = (st2, sent)"
      "c = Cmd_right \<longrightarrow> blink_cooldown st \<le> now - last_blink_time st"
      "st1 = start_countdown (if c = Cmd_right then st2\<lparr>last_blink_time := now\<rparr> else st2)"
      "effs = [Print (Event_line c v), Append_log c v] @ sent"
      "exc = None"
      "c = Cmd_select \<and> all_eye_open st fv \<and> eye_open_duration st \<le> now - last_print_time st
          \<and> fv \<noteq> []
       \<or> c = Cmd_right \<and> \<not> all_eye_open st fv \<and> any_eye_blink st dv
          \<and> next_outside (eye_open_min st) (eye_open_max st) fv = Inr v"
  | (cooling) v where
      "print_delay st \<le> now - last_print_time st"
      "\<not> countdown_signals_skipped st + null_operation_counter st < 2"
      "\<not> blink_cooldown st \<le> now - last_blink_time st"
      "st1 = start_countdown (st\<lparr>last_print_time := now\<rparr>)"
      "effs = [Print (Event_line Cmd_right v), Append_log Cmd_right v]"
      "exc = None"
      "\<not> all_eye_open st fv" "any_eye_blink st dv"
      "next_outside (eye_open_min st) (eye_open_max st) fv = Inr v"
proof (cases "print_delay st \<le> now - last_print_time st")
  case False
  then show ?thesis using u quiet by (simp add: update_ready_def)
next
  case gate: True
  show ?thesis
  proof (cases "all_eye_open st fv")
    case opn: True
    show ?thesis
    proof (cases "eye_open_duration st \<le> now - last_print_time st")
      case False
      then show ?thesis using u gate opn quiet by (simp add: update_ready_def)
    next
      case dur: True
      show ?thesis
      proof (cases "max_key_abs fv")
        case (Inl e)
        have "e = ValueError Max_empty_sequence" "fv = []"
          using max_key_abs_error [OF Inl] max_key_abs_empty [of fv] Inl by simp_all
        then show ?thesis using u gate opn dur Inl raised [where e = e]
          by (simp add: update_ready_def)
      next
        case (Inr v)
        have ne: "fv \<noteq> []" using max_key_abs_empty [of fv] Inr by auto
        show ?thesis
        proof (cases "countdown_signals_skipped st + null_operation_counter st < 2")
          case True
          then show ?thesis using u gate opn dur Inr ne skipped [where c = Cmd_select and v = v]
            by (simp add: update_ready_def Let_def add.assoc)
        next
          case False
          obtain st2 sent where sc: "send_command (st\<lparr>last_print_time := now\<rparr>) Cmd_select = (st2, sent)"
            by (cases "send_command (st\<lparr>last_print_time := now\<rparr>) Cmd_select") auto
          show ?thesis using u gate opn dur Inr ne False sc emitted [where c = Cmd_select and v = v and ?st2.0 = st2 and sent = sent]
            by (simp add: update_ready_def Let_def)
        qed
      qed
    qed
  next
    case nopn: False
    show ?thesis
    proof (cases "any_eye_blink st dv")
      case False
      then show ?thesis using u gate nopn quiet by (simp add: update_ready_def)
    next
      case blink: True
      show ?thesis
      proof (cases "next_outside (eye_open_min st) (eye_open_max st) fv")
        case (Inl e)
        have "e = StopIteration" by (rule next_outside_error [OF Inl])
        then show ?thesis using u gate nopn blink Inl raised [where e = e]
          by (simp add: update_ready_def)
      next
        case (Inr v)
        show ?thesis
        proof (cases "countdown_signals_skipped st + null_operation_counter st < 2")
          case True
          then show ?thesis using u gate nopn blink Inr skipped [where c = Cmd_right and v = v]
            by (simp add: update_ready_def Let_def add.assoc)
        next
          case cnt: False
          show ?thesis
          proof (cases "blink_cooldown st \<le> now - last_blink_time st")
            case True
            obtain st2 sent where sc: "send_command (st\<lparr>last_print_time := now\<rparr>) Cmd_right = (st2, sent)"
              by (cases "send_command (st\<lparr>last_print_time := now\<rparr>) Cmd_right") auto
            show ?thesis using u gate nopn blink Inr cnt True sc emitted [where c = Cmd_right and v = v and ?st2.0 = st2 and sent = sent]
              by (simp add: update_ready_def Let_def)
          next
            case False
            then show ?thesis using u gate nopn blink Inr cnt cooling [where v = v]
              by (simp add: update_ready_def Let_def)
          qed
        qed
      qed
    qed
  qed
qed

text \<open>During the initial countdown a call does nothing, raises, or stores a detection.\<close>

lemma update_not_ready_cases:
  assumes u: "update_not_ready st now dv fv = (st1, effs, exc)"
  obtains
    (quiet) "st1 = st" "effs = []" "exc = None"
      "potential_command st \<noteq> None
       \<or> all_eye_open st fv \<and> \<not> eye_open_duration st \<le> now - last_print_time st
       \<or> \<not> all_eye_open st fv \<and> \<not> any_eye_blink st dv"
  | (raised) e where "st1 = st" "effs = []" "exc = Some e"
      "potential_command st = None"
      "e = StopIteration \<and> \<not> all_eye_open st fv \<and> any_eye_blink st dv
          \<and> next_outside (eye_open_min st) (eye_open_max st) fv = Inl StopIteration
       \<or> e = ValueError Max_empty_sequence \<and> all_eye_open st fv
          \<and> eye_open_duration st \<le> now - last_print_time st \<and> fv = []"
  | (detected) c v where
      "potential_command st = None"
      "st1 = st\<lparr>potential_command := Some c, potential_value := Some v,
                countdown_signals_skipped := countdown_signals_skipped st + 1\<rparr>"
      "effs = [Print (Detected_countdown c v)]"
      "exc = None"
      "c = Cmd_select \<and> all_eye_open st fv \<and> eye_open_duration st \<le> now - last_print_time st
          \<and> fv \<noteq> []
       \<or> c = Cmd_right \<and> \<not> all_eye_open st fv \<and> any_eye_blink st dv
          \<and> next_outside (eye_open_min st) (eye_open_max st) fv = Inr v"
proof (cases "potential_command st")
  case (Some c0)
  then show ?thesis using u quiet by (simp add: update_not_ready_def)
next
  case pend: None
  show ?thesis
  proof (cases "all_eye_open st fv")
    case opn: True
    show ?thesis
    proof (cases "eye_open_duration st \<le> now - last_print_time st")
      case False
      then show ?thesis using u pend opn quiet by (simp add: update_not_ready_def)
    next
      case dur: True
      show ?thesis
      proof (cases "max_key_abs fv")
        case (Inl e)
        have "e = ValueError Max_empty_sequence" "fv = []"
          using max_key_abs_error [OF Inl] max_key_abs_empty [of fv] Inl by simp_all
        then show ?thesis using u pend opn dur Inl raised [where e = e]
          by (simp add: update_not_ready_def)
      next
        case (Inr v)
        moreover have "fv \<noteq> []" using max_key_abs_empty [of fv] Inr by auto
        ultimately show ?thesis using u pend opn dur detected [where c = Cmd_select and v = v]
          by (simp add: update_not_ready_def)
      qed
    qed
  next
    case nopn: False
    show ?thesis
    proof (cases "any_eye_blink st dv")
      case False
      then show ?thesis using u pend nopn quiet by (simp add: update_not_ready_def)
    next
      case blink: True
      show ?thesis
      proof (cases "next_outside (eye_open_min st) (eye_open_max st) fv")
        case (Inl e)
        have "e = StopIteration" by (rule next_outside_error [OF Inl])
        then show ?thesis using u pend nopn blink Inl raised [where e = e]
          by (simp add: update_not_ready_def)
      next
        case (Inr v)
        then show ?thesis using u pend nopn blink detected [where c = Cmd_right and v = v]
          by (simp add: update_not_ready_def)
      qed
    qed
  qed
qed

text \<open>Conditioning the channels changes the filters and the display buffers only.\<close>

lemma condition_channel_shape:
  "\<exists>F D r. condition_channel st dv i = (st\<lparr>filters := F, data := D\<rparr>, r)"
proof (cases "length (filters st) \<le> i")
  case True
  then have "condition_channel st dv i = (st\<lparr>filters := filters st, data := data st\<rparr>, Inl IndexError)"
    by (simp add: condition_channel_def)
  then show ?thesis by blast
next
  case inb: False
  obtain bp notch where fi: "filters st ! i = (bp, notch)"
    by (cases "filters st ! i") auto
  obtain bp1 r1 where p1: "LiveFilter_process bp (dv ! i) = (bp1, r1)"
    by (cases "LiveFilter_process bp (dv ! i)") auto
  show ?thesis
  proof (cases r1)
    case (Inl e)
    then have "condition_channel st dv i =
        (st\<lparr>filters := (filters st)[i := (bp1, notch)], data := data st\<rparr>, Inl e)"
      using inb fi p1 by (simp add: condition_channel_def)
    then show ?thesis by blast
  next
    case v1: (Inr v1)
    obtain notch1 r2 where p2: "LiveFilter_process notch v1 = (notch1, r2)"
      by (cases "LiveFilter_process notch v1") auto
    show ?thesis
    proof (cases r2)
      case (Inl e)
      then have "condition_channel st dv i =
          (st\<lparr>filters := (filters st)[i := (bp1, notch1)], data := data st\<rparr>, Inl e)"
        using inb fi p1 v1 p2 by (simp add: condition_channel_def)
      then show ?thesis by blast
    next
      case v2: (Inr v2)
      show ?thesis
      proof (cases "length (data st) \<le> i \<or> data st ! i = []")
        case True
        then have "condition_channel st dv i =
            (st\<lparr>filters := (filters st)[i := (bp1, notch1)], data := data st\<rparr>, Inl IndexError)"
          using inb fi p1 v1 p2 v2 by (auto simp: condition_channel_def Let_def)
        then show ?thesis by blast
      next
        case False
        then have "condition_channel st dv i =
            (st\<lparr>filters := (filters st)[i := (bp1, notch1)],
                data := (data st)[i := tl (data st ! i) @ [v2]]\<rparr>, Inr v2)"
          using inb fi p1 v1 p2 v2 by (auto simp: condition_channel_def Let_def)
        then show ?thesis by blast
      qed
    qed
  qed
qed

lemma condition_channels_shape:
  "\<exists>F D r. condition_channels st dv idx acc = (st\<lparr>filters := F, data := D\<rparr>, r)"
proof (induction idx arbitrary: st acc)
  case Nil
  have "condition_channels st dv [] acc = (st\<lparr>filters := filters st, data := data st\<rparr>, Inr acc)"
    by simp
  then show ?case by blast
next
  case (Cons i idx)
  obtain F D r where c: "condition_channel st dv i = (st\<lparr>filters := F, data := D\<rparr>, r)"
    using condition_channel_shape by blast
  show ?case
  proof (cases r)
    case (Inl e)
    then have "condition_channels st dv (i # idx) acc = (st\<lparr>filters := F, data := D\<rparr>, Inl e)"
      using c by simp
    then show ?thesis by blast
  next
    case (Inr v)
    obtain F2 D2 r2 where
      "condition_channels (st\<lparr>filters := F, data := D\<rparr>) dv idx (acc @ [v]) =
         (st\<lparr>filters := F, data := D\<rparr>\<lparr>filters := F2, data := D2\<rparr>, r2)"
      using Cons.IH by blast
    then have "condition_channels st dv (i # idx) acc = (st\<lparr>filters := F2, data := D2\<rparr>, r2)"
      using c Inr by simp
    then show ?thesis by blast
  qed
qed

text \<open>The handler, the parser and the three ways the \<open>try\<close> block ends.\<close>

lemma except_ValueError_simps:
  "except_ValueError (st2, effs2, None) = (st2, effs2, None)"
  "except_ValueError (st2, effs2, Some (ValueError m)) =
     (st2, effs2 @ [Print (Error_processing m)], None)"
  "except_ValueError (st2, effs2, Some StopIteration) = (st2, effs2, Some StopIteration)"
  "except_ValueError (st2, effs2, Some TypeError) = (st2, effs2, Some TypeError)"
  "except_ValueError (st2, effs2, Some IndexError) = (st2, effs2, Some IndexError)"
  by (simp_all add: except_ValueError_def)

lemma except_ValueError_cases:
  assumes h: "except_ValueError (st2, effs2, exc2) = (st1, effs, exc)"
  obtains
    (caught) m where "exc2 = Some (ValueError m)" "st1 = st2"
      "effs = effs2 @ [Print (Error_processing m)]" "exc = None"
  | (passed) "\<forall>m. exc2 \<noteq> Some (ValueError m)" "st1 = st2" "effs = effs2" "exc = exc2"
proof (cases exc2)
  case None
  have "st1 = st2" "effs = effs2" "exc = exc2"
    using h None by (simp_all add: except_ValueError_simps)
  then show ?thesis using None passed by simp
next
  case (Some e)
  show ?thesis
  proof (cases e)
    case (ValueError m)
    have "st1 = st2" "effs = effs2 @ [Print (Error_processing m)]" "exc = None"
      using h Some ValueError by (simp_all add: except_ValueError_simps)
    then show ?thesis using Some ValueError caught [where m = m] by simp
  next
    case StopIteration
    have "st1 = st2" "effs = effs2" "exc = exc2"
      using h Some StopIteration by (simp_all add: except_ValueError_simps)
    then show ?thesis using Some StopIteration passed by simp
  next
    case TypeError
    have "st1 = st2" "effs = effs2" "exc = exc2"
      using h Some TypeError by (simp_all add: except_ValueError_simps)
    then show ?thesis using Some TypeError passed by simp
  next
    case IndexError
    have "st1 = st2" "effs = effs2" "exc = exc2"
      using h Some IndexError by (simp_all add: except_ValueError_simps)
    then show ?thesis using Some IndexError passed by simp
  qed
qed

lemma parse_fields_length: "parse_fields pf flds = Inr vs \<Longrightarrow> length vs = length flds"
  by (induction flds arbitrary: vs) (auto split: option.splits sum.splits)

lemma parse_fields_fails:
  "(\<exists>e. parse_fields pf flds = Inl e) = (\<exists>fld \<in> set flds. pf fld = None)"
  by (induction flds) (auto split: option.splits sum.splits)

lemma parse_fields_error: "parse_fields pf flds = Inl e \<Longrightarrow> \<exists>fld. e = ValueError (Could_not_convert fld)"
  by (induction flds arbitrary: e) (auto split: option.splits sum.splits)

lemma update_try_cases:
  assumes u: "update_try pf st now line = (st2, effs2, exc2)"
  obtains
    (malformed) m where "st2 = st" "effs2 = []" "exc2 = Some (ValueError m)"
      "length (split_tab line) \<noteq> num_channels st \<or> (\<exists>fld \<in> set (split_tab line). pf fld = None)"
  | (unconditioned) dv F D e where
      "parse_fields pf (split_tab line) = Inr dv" "length dv = num_channels st"
      "condition_channels st dv [0..<num_channels st] [] = (st\<lparr>filters := F, data := D\<rparr>, Inl e)"
      "st2 = st\<lparr>filters := F, data := D\<rparr>" "effs2 = []" "exc2 = Some e"
  | (classified) dv F D fv where
      "parse_fields pf (split_tab line) = Inr dv" "length dv = num_channels st"
      "condition_channels st dv [0..<num_channels st] [] = (st\<lparr>filters := F, data := D\<rparr>, Inr fv)"
      "(if ready_for_operation st
        then update_ready (st\<lparr>filters := F, data := D\<rparr>) now dv fv
        else update_not_ready (st\<lparr>filters := F, data := D\<rparr>) now dv fv) = (st2, effs2, exc2)"
proof (cases "parse_fields pf (split_tab line)")
  case (Inl e)
  obtain fld where e: "e = ValueError (Could_not_convert fld)"
    using parse_fields_error [OF Inl] by blast
  have bad: "length (split_tab line) \<noteq> num_channels st \<or> (\<exists>fld \<in> set (split_tab line). pf fld = None)"
    using parse_fields_fails [of pf "split_tab line"] Inl by blast
  have "update_try pf st now line = (st, [], Some (ValueError (Could_not_convert fld)))"
    by (simp add: update_try_def Inl e)
  then have "st2 = st" "effs2 = []" "exc2 = Some (ValueError (Could_not_convert fld))"
    using u by simp_all
  then show ?thesis using bad by (rule malformed)
next
  case parsed: (Inr dv)
  have len: "length dv = length (split_tab line)" by (rule parse_fields_length [OF parsed])
  show ?thesis
  proof (cases "length dv = num_channels st")
    case False
    have bad: "length (split_tab line) \<noteq> num_channels st \<or> (\<exists>fld \<in> set (split_tab line). pf fld = None)"
      using False len by simp
    have "update_try pf st now line = (st, [], Some (ValueError Data_length_mismatch))"
      using False by (simp add: update_try_def parsed)
    then have "st2 = st" "effs2 = []" "exc2 = Some (ValueError Data_length_mismatch)"
      using u by simp_all
    then show ?thesis using bad by (rule malformed)
  next
    case True
    obtain F D r where c: "condition_channels st dv [0..<num_channels st] [] = (st\<lparr>filters := F, data := D\<rparr>, r)"
      using condition_channels_shape by blast
    show ?thesis
    proof (cases r)
      case (Inl e)
      have "update_try pf st now line = (st\<lparr>filters := F, data := D\<rparr>, [], Some e)"
        using True by (simp add: update_try_def parsed c Inl)
      then have "st2 = st\<lparr>filters := F, data := D\<rparr>" "effs2 = []" "exc2 = Some e"
        using u by simp_all
      with parsed True c [unfolded Inl] show ?thesis by (rule unconditioned)
    next
      case (Inr fv)
      have "update_try pf st now line =
          (if ready_for_operation st
           then update_ready (st\<lparr>filters := F, data := D\<rparr>) now dv fv
           else update_not_ready (st\<lparr>filters := F, data := D\<rparr>) now dv fv)"
        using True by (simp add: update_try_def parsed c Inr)
      then have "(if ready_for_operation st
           then update_ready (st\<lparr>filters := F, data := D\<rparr>) now dv fv
           else update_not_ready (st\<lparr>filters := F, data := D\<rparr>) now dv fv) = (st2, effs2, exc2)"
        using u by simp
      with parsed True c [unfolded Inr] show ?thesis by (rule classified)
    qed
  qed
qed

section \<open>Evaluation of the concrete session\<close>

text \<open>The equations that evaluate a call on a concrete object.\<close>

lemmas eval_defs = update_def update_try_def except_ValueError_def update_ready_def
  update_not_ready_def condition_channel_def LiveFilter_process_def LiveLFilter_process_def
  np_dot_def appendleft_def all_eye_open_def any_eye_blink_def max_key_abs_def
  start_countdown_def start_initial_countdown_def update_initial_countdown_def
  update_countdown_def send_command_def float_fragment_def
  session_start_def session_ready_def half_gain_def pass_through_def
  line_0_0_def line_200_0_def line_250_0_def line_nan_200_def until_ready_def Let_def
  upt_conv_Cons

text \<open>\<open>session_start\<close> is what the constructor returns, and \<open>until_ready\<close> leads to \<open>session_ready\<close>.\<close>

lemma session_start_constructed:
  "SignalVisualizer_init 2 2 [Num (1 / 2), Num 0] [Num 1, Num 0] [Num 1] [Num 1] 0
     = Inr session_start"
  by code_simp

lemma session_ready_reached: "final float_fragment session_start until_ready = session_ready"
  by (simp add: eval_defs)

section \<open>Malformed records\<close>




section \<open>What a call changes\<close>

text \<open>
  The facts the theorems on sessions need from one call, first for the two branches of
  the classification.
\<close>

lemma start_countdown_fields:
  "null_operation_counter (start_countdown st) = null_operation_counter st"
  "countdown_signals_skipped (start_countdown st) = countdown_signals_skipped st"
  "last_print_time (start_countdown st) = last_print_time st"
  "last_blink_time (start_countdown st) = last_blink_time st"
  "blink_cooldown (start_countdown st) = blink_cooldown st"
  "initial_delay_complete (start_countdown st) = initial_delay_complete st"
  "ready_for_operation (start_countdown st) = ready_for_operation st"
  "potential_command (start_countdown st) = potential_command st"
  "potential_value (start_countdown st) = potential_value st"
  by (simp_all add: start_countdown_def)

lemma update_ready_summary:
  assumes u: "update_ready s now dv fv = (st2, effs2, exc2)"
  shows "(is_sent effs2 \<longrightarrow> is_event effs2 \<and> 2 \<le> countdown_signals_skipped s + null_operation_counter s)
    \<and> countdown_signals_skipped st2 + null_operation_counter st2
        \<le> countdown_signals_skipped s + null_operation_counter s + (if is_event effs2 then 1 else 0)
    \<and> initial_delay_complete st2 = initial_delay_complete s
    \<and> ready_for_operation st2 = ready_for_operation s
    \<and> blink_cooldown st2 = blink_cooldown s
    \<and> potential_command st2 = potential_command s
    \<and> potential_value st2 = potential_value s
    \<and> (Send_command Cmd_right \<in> set effs2
          \<longrightarrow> blink_cooldown s \<le> now - last_blink_time s \<and> last_blink_time st2 = now)
    \<and> (Send_command Cmd_right \<notin> set effs2 \<longrightarrow> last_blink_time st2 = last_blink_time s)
    \<and> (is_event effs2 \<longrightarrow> print_delay s \<le> now - last_print_time s)
    \<and> last_print_time st2 = (if is_event effs2 then now else last_print_time s)"
  using u
proof (cases rule: update_ready_cases)
  case quiet
  then show ?thesis by (simp add: is_sent_def is_event_def)
next
  case (raised e)
  then show ?thesis by (simp add: is_sent_def is_event_def)
next
  case (skipped c v)
  then show ?thesis by (simp add: is_sent_def is_event_def start_countdown_fields)
next
  case (emitted c v st2' sent)
  note f = send_command_facts [OF emitted(3)]
  obtain qv where q: "st2' = s\<lparr>last_print_time := now, command_queue := qv\<rparr>"
    using f(1) by (metis (no_types))
  have ev: "is_event effs2" by (simp add: emitted(6) is_event_def)
  have snt: "is_sent effs2" using f(2) by (simp add: emitted(6) is_sent_def)
  have r: "(Send_command Cmd_right \<in> set effs2) = (c = Cmd_right)"
    using f(4) [of Cmd_right] by (auto simp: emitted(6))
  show ?thesis
  proof (cases c)
    case Cmd_select
    then show ?thesis using emitted(1,2) ev snt r
      by (simp add: emitted(5) start_countdown_fields) (simp add: q)
  next
    case Cmd_right
    then show ?thesis using emitted(1,2,4) ev snt r
      by (simp add: emitted(5) start_countdown_fields) (simp add: q)
  qed
next
  case (cooling v)
  then show ?thesis by (simp add: is_sent_def is_event_def start_countdown_fields)
qed

lemma update_not_ready_summary:
  assumes u: "update_not_ready s now dv fv = (st2, effs2, exc2)"
  shows "\<not> is_sent effs2
    \<and> countdown_signals_skipped st2 + null_operation_counter st2
        \<le> countdown_signals_skipped s + null_operation_counter s + (if is_event effs2 then 1 else 0)
    \<and> initial_delay_complete st2 = initial_delay_complete s
    \<and> ready_for_operation st2 = ready_for_operation s
    \<and> blink_cooldown st2 = blink_cooldown s
    \<and> (potential_paired s \<longrightarrow> potential_paired st2)
    \<and> Send_command Cmd_right \<notin> set effs2
    \<and> last_blink_time st2 = last_blink_time s
    \<and> last_print_time st2 = last_print_time s"
  using u
proof (cases rule: update_not_ready_cases)
  case quiet
  then show ?thesis by (simp add: is_sent_def is_event_def)
next
  case (raised e)
  then show ?thesis by (simp add: is_sent_def is_event_def)
next
  case (detected c v)
  then show ?thesis by (simp add: is_sent_def is_event_def potential_paired_def)
qed

lemma except_ValueError_keeps:
  assumes h: "except_ValueError (st2, effs2, exc2) = (st1, effs, exc)"
  shows "st1 = st2" and "is_event effs = is_event effs2" and "is_sent effs = is_sent effs2"
    and "(Send_command c \<in> set effs) = (Send_command c \<in> set effs2)"
    and "(exc = Some StopIteration) = (exc2 = Some StopIteration)"
  using h
  by (cases rule: except_ValueError_cases; simp add: is_event_def is_sent_def)+

text \<open>The same facts for \<open>update\<close> as a whole, in every state of the object.\<close>

lemma update_summary:
  assumes u: "update pf st now line = (st1, effs, exc)"
  shows "(is_sent effs \<longrightarrow> is_event effs \<and> initial_delay_complete st \<and> ready_for_operation st
              \<and> 2 \<le> countdown_signals_skipped st + null_operation_counter st)
    \<and> (initial_delay_complete st \<longrightarrow> initial_delay_complete st1
          \<and> countdown_signals_skipped st1 + null_operation_counter st1
              \<le> countdown_signals_skipped st + null_operation_counter st
                  + (if is_event effs then 1 else 0))
    \<and> (\<not> initial_delay_complete st \<longrightarrow> \<not> is_event effs
          \<and> (initial_delay_complete st1
               \<longrightarrow> countdown_signals_skipped st1 + null_operation_counter st1 = 0))
    \<and> ready_for_operation st1 = ready_for_operation st
    \<and> blink_cooldown st1 = blink_cooldown st
    \<and> (Send_command Cmd_right \<in> set effs
          \<longrightarrow> blink_cooldown st \<le> now - last_blink_time st \<and> last_blink_time st1 = now)
    \<and> (Send_command Cmd_right \<notin> set effs \<longrightarrow> last_blink_time st1 = last_blink_time st)
    \<and> (potential_paired st \<longrightarrow> potential_paired st1)
    \<and> (is_event effs \<and> ready_for_operation st \<longrightarrow> print_delay st \<le> now - last_print_time st)
    \<and> last_print_time st1
         = (if is_event effs \<and> ready_for_operation st then now else last_print_time st)"
proof (cases "initial_delay_complete st")
  case False
  then have "effs = []"
    and "st1 = (if initial_delay st \<le> now - start_time st
             then st\<lparr>initial_delay_complete := True, initial_countdown_remaining := 3,
                    initial_countdown_timer := True, timer_label := Get_ready 3,
                    null_operation_counter := 0, countdown_signals_skipped := 0\<rparr>
             else st)"
    using u by (auto simp: update_def start_initial_countdown_def Let_def split: if_splits)
  then show ?thesis using False
    by (simp add: is_event_def is_sent_def potential_paired_def)
next
  case complete: True
  show ?thesis
  proof (cases "line \<noteq> [CHR 0x0D, CHR 0x0A] \<and> line \<noteq> [] \<and> line \<noteq> [CHR 0x0A]")
    case False
    then have "st1 = st" "effs = []" using u complete by (auto simp: update_def)
    then show ?thesis by (simp add: is_event_def is_sent_def)
  next
    case True
    obtain st2 effs2 exc2 where t: "update_try pf st now line = (st2, effs2, exc2)"
      by (cases "update_try pf st now line") auto
    have h: "except_ValueError (st2, effs2, exc2) = (st1, effs, exc)"
      using u complete True t by (simp add: update_def)
    note k = except_ValueError_keeps [OF h]
    from t show ?thesis
    proof (cases rule: update_try_cases)
      case (malformed m)
      then show ?thesis using k(1,2,3) k(4) [of Cmd_right] complete
        by (simp add: is_event_def is_sent_def)
    next
      case (unconditioned dv F D e)
      then show ?thesis using k(1,2,3) k(4) [of Cmd_right] complete
        by (simp add: is_event_def is_sent_def potential_paired_def)
    next
      case (classified dv F D fv)
      show ?thesis
      proof (cases "ready_for_operation st")
        case True
        then have "update_ready (st\<lparr>filters := F, data := D\<rparr>) now dv fv = (st2, effs2, exc2)"
          using classified(4) by simp
        from update_ready_summary [OF this] show ?thesis
          using k(1,2,3) k(4) [of Cmd_right] complete True
          by (simp add: potential_paired_def)
      next
        case False
        then have "update_not_ready (st\<lparr>filters := F, data := D\<rparr>) now dv fv = (st2, effs2, exc2)"
          using classified(4) by simp
        from update_not_ready_summary [OF this] show ?thesis
          using k(1,2,3) k(4) [of Cmd_right] complete False
          by (simp add: potential_paired_def)
      qed
    qed
  qed
qed

text \<open>The trace of \<open>whole_session\<close>.\<close>

lemma whole_session_trace:
  "run float_fragment session_start whole_session =
     [(Data_ready 5 line_0_0, [], None),
      (Data_ready 6 line_0_0, [Print (Detected_countdown Cmd_select (Num 0))], None),
      (Initial_timeout, [], None),
      (Initial_timeout, [], None),
      (Initial_timeout, [Print (Ignoring_stored (Some Cmd_select) (Num 0))], None),
      (Data_ready 10 line_0_0,
       [Print (Event_line Cmd_select (Num 0)), Append_log Cmd_select (Num 0),
        Print (Skipping Cmd_select 2)], None),
      (Data_ready 13 line_200_0, [], None),
      (Data_ready 15 line_0_0,
       [Print (Event_line Cmd_select (Num 0)), Append_log Cmd_select (Num 0),
        Send_command Cmd_select], None),
      (Data_ready 18 line_250_0,
       [Print (Event_line Cmd_right (Num 125)), Append_log Cmd_right (Num 125),
        Send_command Cmd_right], None),
      (Data_ready 21 line_250_0,
       [Print (Event_line Cmd_right (Num 125)), Append_log Cmd_right (Num 125),
        Send_command Cmd_right], None)]"
  by (simp add: eval_defs whole_session_def)

text \<open>The timer slot of the initial countdown, and one step of a session.\<close>

lemma update_initial_countdown_summary:
  assumes u: "update_initial_countdown st = (st1, effs, exc)"
  shows "\<not> is_sent effs" and "\<not> is_event effs"
    and "initial_delay_complete st1 = initial_delay_complete st"
    and "countdown_signals_skipped st1 = countdown_signals_skipped st"
    and "null_operation_counter st1 = null_operation_counter st"
    and "blink_cooldown st1 = blink_cooldown st"
    and "last_blink_time st1 = last_blink_time st"
    and "last_print_time st1 = last_print_time st"
    and "command_queue st1 = command_queue st"
    and "Send_command c \<notin> set effs"
    and "Move_to_next_button \<notin> set effs" and "Select_current_button \<notin> set effs"
    and "ready_for_operation st \<Longrightarrow> ready_for_operation st1"
    and "potential_paired st \<Longrightarrow> potential_paired st1"
    and "potential_paired st \<Longrightarrow> \<not> ready_for_operation st \<Longrightarrow> ready_for_operation st1
          \<Longrightarrow> potential_command st1 = None \<and> potential_value st1 = None"
  using u
  by (auto simp: update_initial_countdown_def Let_def is_sent_def is_event_def
      potential_paired_def split: if_splits option.splits)


lemma step_counts:
  assumes s: "step pf st i = (st1, effs, exc)"
  shows "is_sent effs \<Longrightarrow> is_event effs \<and> initial_delay_complete st
            \<and> 2 \<le> countdown_signals_skipped st + null_operation_counter st"
    and "initial_delay_complete st \<Longrightarrow> initial_delay_complete st1
          \<and> countdown_signals_skipped st1 + null_operation_counter st1
              \<le> countdown_signals_skipped st + null_operation_counter st
                  + (if is_event effs then 1 else 0)"
    and "\<not> initial_delay_complete st \<Longrightarrow> \<not> is_event effs
          \<and> (initial_delay_complete st1
               \<longrightarrow> countdown_signals_skipped st1 + null_operation_counter st1 = 0)"
proof -
  have "(is_sent effs \<longrightarrow> is_event effs \<and> initial_delay_complete st
            \<and> 2 \<le> countdown_signals_skipped st + null_operation_counter st)
    \<and> (initial_delay_complete st \<longrightarrow> initial_delay_complete st1
          \<and> countdown_signals_skipped st1 + null_operation_counter st1
              \<le> countdown_signals_skipped st + null_operation_counter st
                  + (if is_event effs then 1 else 0))
    \<and> (\<not> initial_delay_complete st \<longrightarrow> \<not> is_event effs
          \<and> (initial_delay_complete st1
               \<longrightarrow> countdown_signals_skipped st1 + null_operation_counter st1 = 0))"
  proof (cases i)
    case (Data_ready now line)
    then have "update pf st now line = (st1, effs, exc)" using s by simp
    from update_summary [OF this] show ?thesis by simp
  next
    case Initial_timeout
    show ?thesis
    proof (cases "initial_countdown_timer st")
      case True
      then have "update_initial_countdown st = (st1, effs, exc)"
        using s Initial_timeout by simp
      note f = update_initial_countdown_summary [OF this]
      show ?thesis using f(1,2,3,4,5) by simp
    next
      case False
      then show ?thesis using s Initial_timeout by (auto simp: is_sent_def is_event_def)
    qed
  next
    case Countdown_timeout
    then show ?thesis using s
      by (auto simp: is_sent_def is_event_def update_countdown_def Let_def split: if_splits)
  qed
  then show "is_sent effs \<Longrightarrow> is_event effs \<and> initial_delay_complete st
            \<and> 2 \<le> countdown_signals_skipped st + null_operation_counter st"
    and "initial_delay_complete st \<Longrightarrow> initial_delay_complete st1
          \<and> countdown_signals_skipped st1 + null_operation_counter st1
              \<le> countdown_signals_skipped st + null_operation_counter st
                  + (if is_event effs then 1 else 0)"
    and "\<not> initial_delay_complete st \<Longrightarrow> \<not> is_event effs
          \<and> (initial_delay_complete st1
               \<longrightarrow> countdown_signals_skipped st1 + null_operation_counter st1 = 0)"
    by blast+
qed

section \<open>The first two events\<close>

text \<open>
  The two counters never count more than the events seen so far, and \<open>send_command\<close>
  is called only when they have reached two.
\<close>

lemma sent_after_two_events:
  assumes "initial_delay_complete st \<longrightarrow>
            countdown_signals_skipped st + null_operation_counter st \<le> int n"
    and "k < length ins" and "entry_sent (run pf st ins ! k)"
  shows "entry_event (run pf st ins ! k)
         \<and> 2 \<le> n + length (filter entry_event (take k (run pf st ins)))"
  using assms
proof (induction ins arbitrary: st n k)
  case Nil
  then show ?case by simp
next
  case (Cons i rest)
  obtain st1 effs exc where s: "step pf st i = (st1, effs, exc)"
    by (cases "step pf st i") auto
  note c = step_counts [OF s]
  have r: "run pf st (i # rest) = (i, effs, exc) # run pf st1 rest"
    using s by simp
  show ?case
  proof (cases k)
    case 0
    then have "is_sent effs" using Cons.prems(3) r by (simp add: entry_sent_def)
    then have "is_event effs" "initial_delay_complete st"
      "2 \<le> countdown_signals_skipped st + null_operation_counter st"
      using c(1) by simp_all
    then show ?thesis using Cons.prems(1) 0 r by (simp add: entry_event_def)
  next
    case (Suc k')
    define n' where "n' = n + (if is_event effs then 1 else 0)"
    have inv: "initial_delay_complete st1 \<longrightarrow>
        countdown_signals_skipped st1 + null_operation_counter st1 \<le> int n'"
    proof (cases "initial_delay_complete st")
      case True
      then show ?thesis using c(2) Cons.prems(1) by (auto simp: n'_def)
    next
      case False
      then show ?thesis using c(3) by (auto simp: n'_def)
    qed
    have k': "k' < length rest" using Cons.prems(2) Suc by simp
    have snt: "entry_sent (run pf st1 rest ! k')" using Cons.prems(3) Suc r by simp
    have "entry_event (run pf st1 rest ! k')
         \<and> 2 \<le> n' + length (filter entry_event (take k' (run pf st1 rest)))"
      by (rule Cons.IH [OF inv k' snt])
    moreover have "entry_event (i, effs, exc) = is_event effs"
      by (simp add: entry_event_def)
    ultimately show ?thesis unfolding r Suc by (auto simp: n'_def split: if_splits)
  qed
qed

text \<open>
  C1. In every session that starts before the warm-up has ended, a step that calls
  \<open>send_command\<close> is itself an event and at least two events come before it, where an
  event is a rule match logged once ready or a match recorded during the initial
  countdown. So the first two events never reach the command sink, and only the third
  and later ones may.
\<close>

theorem first_two_events_not_sent:
  assumes "\<not> initial_delay_complete st"
    and "k < length ins" and "entry_sent (run pf st ins ! k)"
  shows "entry_event (run pf st ins ! k)
         \<and> 2 \<le> length (filter entry_event (take k (run pf st ins)))"
  using sent_after_two_events [of st 0 k ins pf] assms by simp

theorem first_two_events_not_sent_witness:
  "\<not> initial_delay_complete session_start
   \<and> 7 < length whole_session
   \<and> entry_sent (run float_fragment session_start whole_session ! 7)
   \<and> entry_event (run float_fragment session_start whole_session ! 7)
   \<and> 2 \<le> length (filter entry_event (take 7 (run float_fragment session_start whole_session)))
   \<and> map entry_event (take 7 (run float_fragment session_start whole_session))
        = [False, True, False, False, False, True, False]
   \<and> map entry_sent (take 7 (run float_fragment session_start whole_session))
        = [False, False, False, False, False, False, False]"
proof -
  have h1: "\<not> initial_delay_complete session_start" by (simp add: session_start_def)
  have h2: "7 < length whole_session" by (simp add: whole_session_def until_ready_def)
  have h3: "entry_sent (run float_fragment session_start whole_session ! 7)"
    by (simp add: whole_session_trace entry_sent_def is_sent_def)
  have e: "map entry_event (take 7 (run float_fragment session_start whole_session))
        = [False, True, False, False, False, True, False]"
    by (simp add: whole_session_trace entry_event_def is_event_def)
  have s: "map entry_sent (take 7 (run float_fragment session_start whole_session))
        = [False, False, False, False, False, False, False]"
    by (simp add: whole_session_trace entry_sent_def is_sent_def)
  show ?thesis
    using h1 h2 h3 e s first_two_events_not_sent [OF h1 h2 h3] by simp
qed

section \<open>The blink cooldown\<close>

text \<open>
  A step changes \<open>last_blink_time\<close> exactly when it calls \<open>send_command("right")\<close>,
  to the clock's reading in that call, and it makes that call only when
  \<open>blink_cooldown\<close> seconds have passed since \<open>last_blink_time\<close>.
\<close>

lemma step_blink:
  assumes s: "step pf st i = (st1, effs, exc)"
  shows "blink_cooldown st1 = blink_cooldown st"
    and "right_sent_at (i, effs, exc) = Some t
          \<Longrightarrow> last_blink_time st + blink_cooldown st \<le> t \<and> last_blink_time st1 = t"
    and "right_sent_at (i, effs, exc) = None \<Longrightarrow> last_blink_time st1 = last_blink_time st"
proof -
  have "blink_cooldown st1 = blink_cooldown st
    \<and> (\<forall>t. right_sent_at (i, effs, exc) = Some t
          \<longrightarrow> last_blink_time st + blink_cooldown st \<le> t \<and> last_blink_time st1 = t)
    \<and> (right_sent_at (i, effs, exc) = None \<longrightarrow> last_blink_time st1 = last_blink_time st)"
  proof (cases i)
    case (Data_ready now line)
    then have "update pf st now line = (st1, effs, exc)" using s by simp
    from update_summary [OF this] show ?thesis using Data_ready by auto
  next
    case Initial_timeout
    show ?thesis
    proof (cases "initial_countdown_timer st")
      case True
      then have "update_initial_countdown st = (st1, effs, exc)"
        using s Initial_timeout by simp
      note f = update_initial_countdown_summary [OF this]
      show ?thesis using f(6,7) Initial_timeout by simp
    next
      case False
      then show ?thesis using s Initial_timeout by auto
    qed
  next
    case Countdown_timeout
    then show ?thesis using s
      by (auto simp: update_countdown_def Let_def split: if_splits)
  qed
  then show "blink_cooldown st1 = blink_cooldown st"
    and "right_sent_at (i, effs, exc) = Some t
          \<Longrightarrow> last_blink_time st + blink_cooldown st \<le> t \<and> last_blink_time st1 = t"
    and "right_sent_at (i, effs, exc) = None \<Longrightarrow> last_blink_time st1 = last_blink_time st"
    by blast+
qed

lemma right_after_last_blink:
  assumes "0 \<le> blink_cooldown st" and "k < length ins"
    and "right_sent_at (run pf st ins ! k) = Some t"
  shows "last_blink_time st + blink_cooldown st \<le> t"
  using assms
proof (induction ins arbitrary: st k)
  case Nil
  then show ?case by simp
next
  case (Cons i rest)
  obtain st1 effs exc where s: "step pf st i = (st1, effs, exc)"
    by (cases "step pf st i") auto
  note b = step_blink [OF s]
  have r: "run pf st (i # rest) = (i, effs, exc) # run pf st1 rest"
    using s by simp
  show ?case
  proof (cases k)
    case 0
    then show ?thesis using Cons.prems(3) b(2) [of t] unfolding r by simp
  next
    case (Suc k')
    have "last_blink_time st1 + blink_cooldown st1 \<le> t"
      using Cons.IH [of st1 k'] Cons.prems b(1) Suc unfolding r by simp
    moreover have "last_blink_time st \<le> last_blink_time st1"
    proof (cases "right_sent_at (i, effs, exc)")
      case None
      then show ?thesis using b(3) by simp
    next
      case (Some t0)
      then show ?thesis using b(2) [of t0] Cons.prems(1) by simp
    qed
    ultimately show ?thesis using b(1) by simp
  qed
qed

text \<open>
  C2. In every session of an object whose \<open>blink_cooldown\<close> is not negative (it is
  1.0 in \<open>setup_parameters\<close>), of any two steps that call \<open>send_command("right")\<close> the
  later one reads the clock at least \<open>blink_cooldown\<close> seconds after the earlier one.
\<close>

theorem right_commands_spaced:
  assumes "0 \<le> blink_cooldown st" and "i < j" and "j < length ins"
    and "right_sent_at (run pf st ins ! i) = Some ti"
    and "right_sent_at (run pf st ins ! j) = Some tj"
  shows "ti + blink_cooldown st \<le> tj"
  using assms
proof (induction ins arbitrary: st i j)
  case Nil
  then show ?case by simp
next
  case (Cons x rest)
  obtain st1 effs exc where s: "step pf st x = (st1, effs, exc)"
    by (cases "step pf st x") auto
  note b = step_blink [OF s]
  have r: "run pf st (x # rest) = (x, effs, exc) # run pf st1 rest"
    using s by simp
  obtain j' where j: "j = Suc j'" using Cons.prems(2) by (cases j) auto
  have j': "j' < length rest" using Cons.prems(3) j by simp
  have tj: "right_sent_at (run pf st1 rest ! j') = Some tj"
    using Cons.prems(5) j unfolding r by simp
  have cd: "0 \<le> blink_cooldown st1" using Cons.prems(1) b(1) by simp
  show ?case
  proof (cases i)
    case 0
    then have "right_sent_at (x, effs, exc) = Some ti"
      using Cons.prems(4) unfolding r by simp
    then have "last_blink_time st1 = ti" using b(2) [of ti] by simp
    then show ?thesis using right_after_last_blink [OF cd j' tj] b(1) by simp
  next
    case (Suc i')
    then have "right_sent_at (run pf st1 rest ! i') = Some ti"
      using Cons.prems(4) unfolding r by simp
    moreover have "i' < j'" using Cons.prems(2) Suc j by simp
    ultimately show ?thesis using Cons.IH [OF cd _ j' _ tj] b(1) by simp
  qed
qed

theorem right_commands_spaced_witness:
  "0 \<le> blink_cooldown session_start \<and> (8::nat) < 9 \<and> 9 < length whole_session
   \<and> right_sent_at (run float_fragment session_start whole_session ! 8) = Some 18
   \<and> right_sent_at (run float_fragment session_start whole_session ! 9) = Some 21
   \<and> (18::real) + blink_cooldown session_start \<le> 21"
proof -
  have h1: "0 \<le> blink_cooldown session_start" by (simp add: session_start_def)
  have h2: "(8::nat) < 9" by simp
  have h3: "9 < length whole_session" by (simp add: whole_session_def until_ready_def)
  have h4: "right_sent_at (run float_fragment session_start whole_session ! 8) = Some 18"
    by (simp add: whole_session_trace)
  have h5: "right_sent_at (run float_fragment session_start whole_session ! 9) = Some 21"
    by (simp add: whole_session_trace)
  show ?thesis
    using h1 h3 h4 h5 right_commands_spaced [OF h1 h2 h3 h4 h5] by simp
qed

section \<open>The pending command\<close>

text \<open>
  What a step does to the pending command and the ready flag: the pair of
  \<open>potential_command\<close> and \<open>potential_value\<close> stays paired, the flag is never
  cleared, nothing is sent before it is set, and only the countdown's timeout sets it.
\<close>

lemma step_pending:
  assumes s: "step pf st i = (st1, effs, exc)"
  shows "potential_paired st \<Longrightarrow> potential_paired st1"
    and "ready_for_operation st \<Longrightarrow> ready_for_operation st1"
    and "is_sent effs \<Longrightarrow> ready_for_operation st"
    and "potential_paired st \<Longrightarrow> \<not> ready_for_operation st \<Longrightarrow> ready_for_operation st1
          \<Longrightarrow> i = Initial_timeout \<and> potential_command st1 = None \<and> potential_value st1 = None
              \<and> command_queue st1 = command_queue st
              \<and> Move_to_next_button \<notin> set effs \<and> Select_current_button \<notin> set effs"
proof -
  have "(potential_paired st \<longrightarrow> potential_paired st1)
    \<and> (ready_for_operation st \<longrightarrow> ready_for_operation st1)
    \<and> (is_sent effs \<longrightarrow> ready_for_operation st)
    \<and> (potential_paired st \<and> \<not> ready_for_operation st \<and> ready_for_operation st1
          \<longrightarrow> i = Initial_timeout \<and> potential_command st1 = None \<and> potential_value st1 = None
              \<and> command_queue st1 = command_queue st
              \<and> Move_to_next_button \<notin> set effs \<and> Select_current_button \<notin> set effs)"
  proof (cases i)
    case (Data_ready now line)
    then have "update pf st now line = (st1, effs, exc)" using s by simp
    from update_summary [OF this] show ?thesis by auto
  next
    case Initial_timeout
    show ?thesis
    proof (cases "initial_countdown_timer st")
      case True
      then have "update_initial_countdown st = (st1, effs, exc)"
        using s Initial_timeout by simp
      note f = update_initial_countdown_summary [OF this]
      show ?thesis using f(1,9,11,12,13,14,15) Initial_timeout by blast
    next
      case False
      then show ?thesis using s Initial_timeout by (auto simp: is_sent_def)
    qed
  next
    case Countdown_timeout
    then show ?thesis using s
      by (auto simp: update_countdown_def Let_def is_sent_def potential_paired_def
          split: if_splits)
  qed
  then show "potential_paired st \<Longrightarrow> potential_paired st1"
    and "ready_for_operation st \<Longrightarrow> ready_for_operation st1"
    and "is_sent effs \<Longrightarrow> ready_for_operation st"
    and "potential_paired st \<Longrightarrow> \<not> ready_for_operation st \<Longrightarrow> ready_for_operation st1
          \<Longrightarrow> i = Initial_timeout \<and> potential_command st1 = None \<and> potential_value st1 = None
              \<and> command_queue st1 = command_queue st
              \<and> Move_to_next_button \<notin> set effs \<and> Select_current_button \<notin> set effs"
    by blast+
qed

lemma final_paired: "potential_paired st \<Longrightarrow> potential_paired (final pf st ins)"
proof (induction ins arbitrary: st)
  case Nil
  then show ?case by simp
next
  case (Cons i rest)
  obtain st1 effs exc where s: "step pf st i = (st1, effs, exc)"
    by (cases "step pf st i") auto
  show ?case using Cons.IH [of st1] step_pending(1) [OF s] Cons.prems s by simp
qed

lemma final_ready: "ready_for_operation st \<Longrightarrow> ready_for_operation (final pf st ins)"
proof (induction ins arbitrary: st)
  case Nil
  then show ?case by simp
next
  case (Cons i rest)
  obtain st1 effs exc where s: "step pf st i = (st1, effs, exc)"
    by (cases "step pf st i") auto
  show ?case using Cons.IH [of st1] step_pending(2) [OF s] Cons.prems s by simp
qed

lemma nothing_sent_before_ready:
  "\<not> ready_for_operation (final pf st ins) \<Longrightarrow> list_all (\<lambda>en. \<not> entry_sent en) (run pf st ins)"
proof (induction ins arbitrary: st)
  case Nil
  then show ?case by simp
next
  case (Cons i rest)
  obtain st1 effs exc where s: "step pf st i = (st1, effs, exc)"
    by (cases "step pf st i") auto
  have f: "final pf st (i # rest) = final pf st1 rest" using s by simp
  have "\<not> ready_for_operation st1" using Cons.prems final_ready [of st1 pf rest] f by auto
  then have "\<not> ready_for_operation st" using step_pending(2) [OF s] by blast
  then have "\<not> is_sent effs" using step_pending(3) [OF s] by blast
  moreover have "list_all (\<lambda>en. \<not> entry_sent en) (run pf st1 rest)"
    using Cons.IH [of st1] Cons.prems f by simp
  ultimately show ?case using s by (simp add: entry_sent_def)
qed

text \<open>
  C5. In every session from an object whose pending command and value are paired (as
  the constructor leaves them): the step in which \<open>ready_for_operation\<close> flips to true
  is a timeout of the initial countdown; after it the pending command and its value
  are \<open>None\<close>; the step does not call \<open>send_command\<close> or the launcher and leaves the
  command queue as it was; and no earlier step of the session called \<open>send_command\<close>.
\<close>

theorem pending_command_discarded:
  assumes "potential_paired st0"
    and "\<not> ready_for_operation (final pf st0 ins)"
    and "step pf (final pf st0 ins) i = (st1, effs, exc)"
    and "ready_for_operation st1"
  shows "i = Initial_timeout
    \<and> potential_command st1 = None \<and> potential_value st1 = None
    \<and> \<not> is_sent effs
    \<and> Move_to_next_button \<notin> set effs \<and> Select_current_button \<notin> set effs
    \<and> command_queue st1 = command_queue (final pf st0 ins)
    \<and> list_all (\<lambda>en. \<not> entry_sent en) (run pf st0 ins)"
proof -
  have p: "potential_paired (final pf st0 ins)" by (rule final_paired [OF assms(1)])
  have "\<not> is_sent effs" using step_pending(3) [OF assms(3)] assms(2) by blast
  then show ?thesis
    using step_pending(4) [OF assms(3) p assms(2) assms(4)]
      nothing_sent_before_ready [OF assms(2)] by simp
qed

theorem pending_command_discarded_witness:
  "potential_paired session_start
   \<and> \<not> ready_for_operation (final float_fragment session_start before_ready)
   \<and> potential_command (final float_fragment session_start before_ready) = Some Cmd_select
   \<and> step float_fragment (final float_fragment session_start before_ready) Initial_timeout
        = (session_ready, [Print (Ignoring_stored (Some Cmd_select) (Num 0))], None)
   \<and> ready_for_operation session_ready
   \<and> potential_command session_ready = None \<and> potential_value session_ready = None
   \<and> command_queue session_ready
        = command_queue (final float_fragment session_start before_ready)
   \<and> list_all (\<lambda>en. \<not> entry_sent en) (run float_fragment session_start before_ready)"
proof -
  have h1: "potential_paired session_start"
    by (simp add: potential_paired_def session_start_def)
  have f: "final float_fragment session_start before_ready =
      session_start\<lparr>initial_delay_complete := True, initial_countdown_timer := True,
        initial_countdown_remaining := 1, timer_label := Get_ready 1,
        countdown_signals_skipped := 1,
        potential_command := Some Cmd_select, potential_value := Some (Num 0)\<rparr>"
    by (simp add: eval_defs before_ready_def)
  have h2: "\<not> ready_for_operation (final float_fragment session_start before_ready)"
    unfolding f by (simp add: session_start_def)
  have h3: "step float_fragment (final float_fragment session_start before_ready) Initial_timeout
        = (session_ready, [Print (Ignoring_stored (Some Cmd_select) (Num 0))], None)"
    unfolding f by (simp add: eval_defs)
  have h4: "ready_for_operation session_ready"
    by (simp add: session_ready_def)
  show ?thesis
    using h1 h2 h3 h4 pending_command_discarded [OF h1 h2 h3 h4]
    by (simp add: f)
qed

section \<open>Which rule is evaluated\<close>

text \<open>
  When the ready branch logs a "select" event, when it logs a "right" event, and when
  the selection of the trigger value raises \<open>StopIteration\<close>; the last also for the
  branch of the initial countdown.
\<close>

lemma not_event_no_log: "\<not> is_event xs \<Longrightarrow> Append_log c v \<notin> set xs"
  by (induction xs) (auto simp: is_event_def)

lemma next_outside_total:
  "(\<exists>v. next_outside lo hi vs = Inr v) = (next_outside lo hi vs \<noteq> Inl StopIteration)"
  using next_outside_error [of lo hi vs] by (cases "next_outside lo hi vs") auto

lemma update_ready_logs:
  assumes u: "update_ready s now dv fv = (st2, effs2, exc2)"
  shows "(\<exists>v. Append_log Cmd_select v \<in> set effs2)
          = (print_delay s \<le> now - last_print_time s \<and> all_eye_open s fv
             \<and> eye_open_duration s \<le> now - last_print_time s \<and> fv \<noteq> [])"
    and "(\<exists>w. Append_log Cmd_right w \<in> set effs2)
          = (print_delay s \<le> now - last_print_time s \<and> \<not> all_eye_open s fv
             \<and> any_eye_blink s dv
             \<and> next_outside (eye_open_min s) (eye_open_max s) fv \<noteq> Inl StopIteration)"
    and "(exc2 = Some StopIteration)
          = (print_delay s \<le> now - last_print_time s \<and> \<not> all_eye_open s fv
             \<and> any_eye_blink s dv
             \<and> next_outside (eye_open_min s) (eye_open_max s) fv = Inl StopIteration)"
proof -
  have "((\<exists>v. Append_log Cmd_select v \<in> set effs2)
          = (print_delay s \<le> now - last_print_time s \<and> all_eye_open s fv
             \<and> eye_open_duration s \<le> now - last_print_time s \<and> fv \<noteq> []))
    \<and> ((\<exists>w. Append_log Cmd_right w \<in> set effs2)
          = (print_delay s \<le> now - last_print_time s \<and> \<not> all_eye_open s fv
             \<and> any_eye_blink s dv
             \<and> next_outside (eye_open_min s) (eye_open_max s) fv \<noteq> Inl StopIteration))
    \<and> ((exc2 = Some StopIteration)
          = (print_delay s \<le> now - last_print_time s \<and> \<not> all_eye_open s fv
             \<and> any_eye_blink s dv
             \<and> next_outside (eye_open_min s) (eye_open_max s) fv = Inl StopIteration))"
    using u
  proof (cases rule: update_ready_cases)
    case quiet
    then show ?thesis by auto
  next
    case (raised e)
    then show ?thesis by auto
  next
    case (skipped c v)
    then show ?thesis by (cases c) auto
  next
    case (emitted c v st2' sent)
    have "Append_log c' v' \<notin> set sent" for c' v'
      using send_command_facts(3) [OF emitted(3)] by (rule not_event_no_log)
    then show ?thesis using emitted(1,6,7,8) by (cases c) auto
  next
    case (cooling v)
    then show ?thesis by auto
  qed
  then show "(\<exists>v. Append_log Cmd_select v \<in> set effs2)
          = (print_delay s \<le> now - last_print_time s \<and> all_eye_open s fv
             \<and> eye_open_duration s \<le> now - last_print_time s \<and> fv \<noteq> [])"
    and "(\<exists>w. Append_log Cmd_right w \<in> set effs2)
          = (print_delay s \<le> now - last_print_time s \<and> \<not> all_eye_open s fv
             \<and> any_eye_blink s dv
             \<and> next_outside (eye_open_min s) (eye_open_max s) fv \<noteq> Inl StopIteration)"
    and "(exc2 = Some StopIteration)
          = (print_delay s \<le> now - last_print_time s \<and> \<not> all_eye_open s fv
             \<and> any_eye_blink s dv
             \<and> next_outside (eye_open_min s) (eye_open_max s) fv = Inl StopIteration)"
    by blast+
qed

lemma update_not_ready_raises:
  assumes u: "update_not_ready s now dv fv = (st2, effs2, exc2)"
  shows "(exc2 = Some StopIteration)
          = (potential_command s = None \<and> \<not> all_eye_open s fv \<and> any_eye_blink s dv
             \<and> next_outside (eye_open_min s) (eye_open_max s) fv = Inl StopIteration)"
  using u
proof (cases rule: update_not_ready_cases)
  case quiet
  then show ?thesis by auto
next
  case (raised e)
  then show ?thesis by auto
next
  case (detected c v)
  then show ?thesis by (cases c) auto
qed

text \<open>\<open>session_after_skip\<close> is reached from \<open>session_start\<close>.\<close>

lemma session_after_skip_reached:
  "final float_fragment session_start (until_ready @ [Data_ready 10 line_0_0])
     = session_after_skip"
  by (simp add: eval_defs session_after_skip_def)

text \<open>
  For a line that parses into \<open>num_channels\<close> values and whose channels condition
  without an exception, \<open>update\<close> is the classification of the conditioned object
  under the handler; the thresholds are the ones of the object before.
\<close>

lemma except_ValueError_log:
  assumes h: "except_ValueError (st2, effs2, exc2) = (st1, effs, exc)"
  shows "(Append_log c v \<in> set effs) = (Append_log c v \<in> set effs2)"
  using h by (cases rule: except_ValueError_cases) simp_all

lemma unchanged_thresholds:
  "all_eye_open (st\<lparr>filters := F, data := D\<rparr>) fv = all_eye_open st fv"
  "any_eye_blink (st\<lparr>filters := F, data := D\<rparr>) dv = any_eye_blink st dv"
  by (simp_all add: all_eye_open_def any_eye_blink_def)

lemma update_classified:
  assumes c: "initial_delay_complete st"
    and nb: "line \<noteq> [CHR 0x0D, CHR 0x0A]" "line \<noteq> []" "line \<noteq> [CHR 0x0A]"
    and p: "parse_fields pf (split_tab line) = Inr dv" and l: "length dv = num_channels st"
    and cc: "condition_channels st dv [0..<num_channels st] [] = (stc, Inr fv)"
  obtains F D where "stc = st\<lparr>filters := F, data := D\<rparr>"
    and "update pf st now line =
           except_ValueError (if ready_for_operation st then update_ready stc now dv fv
                              else update_not_ready stc now dv fv)"
proof -
  obtain F D r where sh: "condition_channels st dv [0..<num_channels st] [] = (st\<lparr>filters := F, data := D\<rparr>, r)"
    using condition_channels_shape by blast
  then have stc: "stc = st\<lparr>filters := F, data := D\<rparr>" using cc by simp
  have "update_try pf st now line =
      (if ready_for_operation st then update_ready stc now dv fv
       else update_not_ready stc now dv fv)"
    using l by (simp add: update_try_def p cc) (simp add: stc)
  then have "update pf st now line =
           except_ValueError (if ready_for_operation st then update_ready stc now dv fv
                              else update_not_ready stc now dv fv)"
    using c nb by (simp add: update_def)
  with stc show ?thesis by (rule that)
qed

section \<open>The priority of the two rules\<close>

text \<open>
  C3, amended. For a record processed while ready: no record logs both a "select" and a
  "right" event; a "select" event is logged exactly when the rate limiter is open,
  every filtered value lies in the neutral band and \<open>eye_open_duration\<close> has passed;
  and the blink rule is evaluated (a "right" event is logged, or its selection of a
  trigger value raises) exactly when the rate limiter is open, not every filtered value
  lies in the neutral band, and some raw value lies in an excursion band. The test
  that decides between the rules is the neutral band, not whether the open rule fired.
\<close>

theorem rule_priority:
  assumes c: "initial_delay_complete st" and r: "ready_for_operation st"
    and nb: "line \<noteq> [CHR 0x0D, CHR 0x0A]" "line \<noteq> []" "line \<noteq> [CHR 0x0A]"
    and p: "parse_fields pf (split_tab line) = Inr dv" and l: "length dv = num_channels st"
    and cc: "condition_channels st dv [0..<num_channels st] [] = (stc, Inr fv)"
    and u: "update pf st now line = (st1, effs, exc)"
  shows "\<not> ((\<exists>v. Append_log Cmd_select v \<in> set effs) \<and> (\<exists>w. Append_log Cmd_right w \<in> set effs))
    \<and> ((\<exists>v. Append_log Cmd_select v \<in> set effs)
          = (print_delay st \<le> now - last_print_time st \<and> all_eye_open st fv
             \<and> eye_open_duration st \<le> now - last_print_time st \<and> fv \<noteq> []))
    \<and> (((\<exists>w. Append_log Cmd_right w \<in> set effs) \<or> exc = Some StopIteration)
          = (print_delay st \<le> now - last_print_time st \<and> \<not> all_eye_open st fv
             \<and> any_eye_blink st dv))"
proof -
  obtain F D where stc: "stc = st\<lparr>filters := F, data := D\<rparr>"
    and upd: "update pf st now line =
           except_ValueError (if ready_for_operation st then update_ready stc now dv fv
                              else update_not_ready stc now dv fv)"
    using update_classified [OF c nb p l cc] by blast
  obtain st2 effs2 exc2 where ur: "update_ready stc now dv fv = (st2, effs2, exc2)"
    by (cases "update_ready stc now dv fv") auto
  have h: "except_ValueError (st2, effs2, exc2) = (st1, effs, exc)"
    using upd u r ur by simp
  note lg = except_ValueError_log [OF h]
  note kp = except_ValueError_keeps(5) [OF h]
  note f = update_ready_logs [OF ur]
  have sel: "(\<exists>v. Append_log Cmd_select v \<in> set effs)
          = (print_delay st \<le> now - last_print_time st \<and> all_eye_open st fv
             \<and> eye_open_duration st \<le> now - last_print_time st \<and> fv \<noteq> [])"
    using f(1) by (simp add: lg stc unchanged_thresholds)
  have rgt: "(\<exists>w. Append_log Cmd_right w \<in> set effs)
          = (print_delay st \<le> now - last_print_time st \<and> \<not> all_eye_open st fv
             \<and> any_eye_blink st dv
             \<and> next_outside (eye_open_min st) (eye_open_max st) fv \<noteq> Inl StopIteration)"
    using f(2) by (simp add: lg stc unchanged_thresholds)
  have stp: "(exc = Some StopIteration)
          = (print_delay st \<le> now - last_print_time st \<and> \<not> all_eye_open st fv
             \<and> any_eye_blink st dv
             \<and> next_outside (eye_open_min st) (eye_open_max st) fv = Inl StopIteration)"
    using f(3) by (simp add: kp stc unchanged_thresholds)
  show ?thesis unfolding sel rgt stp by blast
qed

theorem rule_priority_witness:
  "initial_delay_complete session_after_skip \<and> ready_for_operation session_after_skip
   \<and> parse_fields float_fragment (split_tab line_250_0) = Inr [Num 250, Num 0]
   \<and> snd (condition_channels session_after_skip [Num 250, Num 0]
             [0..<num_channels session_after_skip] []) = Inr [Num 125, Num 0]
   \<and> print_delay session_after_skip \<le> 13 - last_print_time session_after_skip
   \<and> \<not> all_eye_open session_after_skip [Num 125, Num 0]
   \<and> any_eye_blink session_after_skip [Num 250, Num 0]
   \<and> snd (update float_fragment session_after_skip 13 line_250_0) =
        ([Print (Event_line Cmd_right (Num 125)), Append_log Cmd_right (Num 125),
          Send_command Cmd_right], None)
   \<and> (\<exists>w. Append_log Cmd_right w
            \<in> set (fst (snd (update float_fragment session_after_skip 13 line_250_0))))
   \<and> \<not> (\<exists>v. Append_log Cmd_select v
            \<in> set (fst (snd (update float_fragment session_after_skip 13 line_250_0))))"
proof -
  have c: "initial_delay_complete session_after_skip"
    and r: "ready_for_operation session_after_skip"
    by (simp_all add: session_after_skip_def session_ready_def)
  have nb: "line_250_0 \<noteq> [CHR 0x0D, CHR 0x0A]" "line_250_0 \<noteq> []" "line_250_0 \<noteq> [CHR 0x0A]"
    by (simp_all add: line_250_0_def)
  have p: "parse_fields float_fragment (split_tab line_250_0) = Inr [Num 250, Num 0]"
    by (simp add: line_250_0_def float_fragment_def)
  have l: "length [Num 250, Num 0] = num_channels session_after_skip"
    by (simp add: session_after_skip_def session_ready_def session_start_def)
  have fv: "snd (condition_channels session_after_skip [Num 250, Num 0]
             [0..<num_channels session_after_skip] []) = Inr [Num 125, Num 0]"
    by (simp add: eval_defs session_after_skip_def)
  obtain stc where cc: "condition_channels session_after_skip [Num 250, Num 0]
             [0..<num_channels session_after_skip] [] = (stc, Inr [Num 125, Num 0])"
    using fv by (metis prod.collapse)
  have g: "print_delay session_after_skip \<le> 13 - last_print_time session_after_skip"
    "\<not> all_eye_open session_after_skip [Num 125, Num 0]"
    "any_eye_blink session_after_skip [Num 250, Num 0]"
    by (simp_all add: eval_defs session_after_skip_def)
  have e: "snd (update float_fragment session_after_skip 13 line_250_0) =
        ([Print (Event_line Cmd_right (Num 125)), Append_log Cmd_right (Num 125),
          Send_command Cmd_right], None)"
    by (simp add: eval_defs session_after_skip_def)
  obtain st1 effs exc where u: "update float_fragment session_after_skip 13 line_250_0 = (st1, effs, exc)"
    by (cases "update float_fragment session_after_skip 13 line_250_0") auto
  show ?thesis
    using c r p fv g e u rule_priority [OF c r nb p l cc u]
    by auto
qed

text \<open>
  The claim as stated fails three seconds after an event: at clock reading 13 the
  line \<open>200\<close>, \<open>0\<close> has a raw value in the positive excursion band and filtered values
  100 and 0, all neutral. The open rule does not fire, since \<open>eye_open_duration\<close> has
  not passed, and the blink rule is not evaluated: nothing is logged and nothing raises.
\<close>

theorem blink_rule_not_evaluated:
  "initial_delay_complete session_after_skip \<and> ready_for_operation session_after_skip
   \<and> parse_fields float_fragment (split_tab line_200_0) = Inr [Num 200, Num 0]
   \<and> snd (condition_channels session_after_skip [Num 200, Num 0]
             [0..<num_channels session_after_skip] []) = Inr [Num 100, Num 0]
   \<and> print_delay session_after_skip \<le> 13 - last_print_time session_after_skip
   \<and> all_eye_open session_after_skip [Num 100, Num 0]
   \<and> \<not> eye_open_duration session_after_skip \<le> 13 - last_print_time session_after_skip
   \<and> between (eye_blink_positive_min session_after_skip) (Num 200)
        (eye_blink_positive_max session_after_skip)
   \<and> any_eye_blink session_after_skip [Num 200, Num 0]
   \<and> update float_fragment session_after_skip 13 line_200_0 =
        (fst (condition_channels session_after_skip [Num 200, Num 0]
               [0..<num_channels session_after_skip] []), [], None)"
  by (simp add: eval_defs session_after_skip_def)

section \<open>The rate limiter\<close>

text \<open>
  C4, amended. While ready, an event is logged only if at least \<open>print_delay\<close> seconds
  have passed since \<open>last_print_time\<close>, and \<open>last_print_time\<close> advances to the clock's
  reading exactly when an event is logged: whether its command is then sent, skipped by
  the first-two policy or held back by the blink cooldown. A command is sent only in a
  step that logs an event.
\<close>

theorem rate_limit_window:
  assumes "initial_delay_complete st" and "ready_for_operation st"
    and "update pf st now line = (st1, effs, exc)"
  shows "(is_event effs \<longrightarrow> print_delay st \<le> now - last_print_time st)
    \<and> last_print_time st1 = (if is_event effs then now else last_print_time st)
    \<and> (is_sent effs \<longrightarrow> is_event effs)"
  using update_summary [OF assms(3)] assms(1,2) by simp

theorem rate_limit_window_witness:
  "initial_delay_complete session_ready \<and> ready_for_operation session_ready
   \<and> update float_fragment session_ready 10 line_0_0 =
        (session_after_skip,
         [Print (Event_line Cmd_select (Num 0)), Append_log Cmd_select (Num 0),
          Print (Skipping Cmd_select 2)], None)
   \<and> is_event [Print (Event_line Cmd_select (Num 0)), Append_log Cmd_select (Num 0),
          Print (Skipping Cmd_select 2)]
   \<and> print_delay session_ready \<le> 10 - last_print_time session_ready
   \<and> last_print_time session_after_skip = 10"
proof -
  have c: "initial_delay_complete session_ready" and r: "ready_for_operation session_ready"
    by (simp_all add: session_ready_def)
  have u: "update float_fragment session_ready 10 line_0_0 =
        (session_after_skip,
         [Print (Event_line Cmd_select (Num 0)), Append_log Cmd_select (Num 0),
          Print (Skipping Cmd_select 2)], None)"
    by (simp add: eval_defs session_after_skip_def)
  have e: "is_event [Print (Event_line Cmd_select (Num 0)), Append_log Cmd_select (Num 0),
          Print (Skipping Cmd_select 2)]"
    by (simp add: is_event_def)
  show ?thesis using c r u e rate_limit_window [OF c r u] by simp
qed

text \<open>
  The claim as stated fails at the first event after the countdown: it is logged and
  skipped, not sent, and yet \<open>last_print_time\<close> moves from 0 to 10, so that the line at
  clock reading 12 is not classified; with \<open>last_print_time\<close> left at 0 that line
  would have been a "right" event.
\<close>

theorem suppressed_event_restarts_window:
  "ready_for_operation session_ready
   \<and> update float_fragment session_ready 10 line_0_0 =
        (session_after_skip,
         [Print (Event_line Cmd_select (Num 0)), Append_log Cmd_select (Num 0),
          Print (Skipping Cmd_select 2)], None)
   \<and> \<not> is_sent [Print (Event_line Cmd_select (Num 0)), Append_log Cmd_select (Num 0),
          Print (Skipping Cmd_select 2)]
   \<and> last_print_time session_ready = 0
   \<and> last_print_time session_after_skip = 10
   \<and> snd (update float_fragment session_after_skip 12 line_250_0) = ([], None)
   \<and> snd (update float_fragment (session_after_skip\<lparr>last_print_time := 0\<rparr>) 12 line_250_0) =
        ([Print (Event_line Cmd_right (Num 125)), Append_log Cmd_right (Num 125),
          Send_command Cmd_right], None)"
  by (simp add: eval_defs session_after_skip_def is_sent_def)

section \<open>The selection of the blink trigger value\<close>

text \<open>
  \<open>next(...)\<close> finds no candidate exactly when every filtered value is NaN or lies in
  the neutral band.
\<close>

lemma next_outside_stops:
  "(next_outside lo hi vs = Inl StopIteration)
     = list_all (\<lambda>v. isnan v \<or> between lo v hi) vs"
proof (induction vs)
  case Nil
  then show ?case by simp
next
  case (Cons v vs)
  then show ?case by (cases v) auto
qed

text \<open>
  C10, amended. For a record that parses into \<open>num_channels\<close> values and whose
  channels condition without an exception, \<open>update\<close> lets \<open>StopIteration\<close> leave the
  call exactly when the blink rule is reached (rate limiter open when ready, nothing
  pending during the countdown; not every filtered value neutral; some raw value in an
  excursion band) and every filtered value is NaN or lies in the neutral band. Then at
  least one filtered value is NaN and nothing is printed, logged or sent. When every
  filtered value lies in the neutral band the selection is never reached.
\<close>

theorem trigger_selection_partial:
  assumes c: "initial_delay_complete st"
    and nb: "line \<noteq> [CHR 0x0D, CHR 0x0A]" "line \<noteq> []" "line \<noteq> [CHR 0x0A]"
    and p: "parse_fields pf (split_tab line) = Inr dv" and l: "length dv = num_channels st"
    and cc: "condition_channels st dv [0..<num_channels st] [] = (stc, Inr fv)"
    and u: "update pf st now line = (st1, effs, exc)"
  shows "((exc = Some StopIteration)
          = ((if ready_for_operation st then print_delay st \<le> now - last_print_time st
              else potential_command st = None)
             \<and> \<not> all_eye_open st fv \<and> any_eye_blink st dv
             \<and> list_all (\<lambda>v. isnan v \<or> between (eye_open_min st) v (eye_open_max st)) fv))
    \<and> (exc = Some StopIteration \<longrightarrow> list_ex isnan fv \<and> effs = [])
    \<and> (all_eye_open st fv \<longrightarrow> exc \<noteq> Some StopIteration)"
proof -
  obtain F D where stc: "stc = st\<lparr>filters := F, data := D\<rparr>"
    and upd: "update pf st now line =
           except_ValueError (if ready_for_operation st then update_ready stc now dv fv
                              else update_not_ready stc now dv fv)"
    using update_classified [OF c nb p l cc] by blast
  obtain st2 effs2 exc2 where cl: "(if ready_for_operation st then update_ready stc now dv fv
                              else update_not_ready stc now dv fv) = (st2, effs2, exc2)"
    by (cases "if ready_for_operation st then update_ready stc now dv fv
               else update_not_ready stc now dv fv") auto
  have h: "except_ValueError (st2, effs2, exc2) = (st1, effs, exc)"
    using upd u cl by simp
  note kp = except_ValueError_keeps(5) [OF h]
  have main: "(exc = Some StopIteration)
          = ((if ready_for_operation st then print_delay st \<le> now - last_print_time st
              else potential_command st = None)
             \<and> \<not> all_eye_open st fv \<and> any_eye_blink st dv
             \<and> list_all (\<lambda>v. isnan v \<or> between (eye_open_min st) v (eye_open_max st)) fv)"
  proof (cases "ready_for_operation st")
    case True
    then have "update_ready stc now dv fv = (st2, effs2, exc2)" using cl by simp
    from update_ready_logs(3) [OF this] show ?thesis
      using True by (simp add: kp stc unchanged_thresholds next_outside_stops)
  next
    case False
    then have "update_not_ready stc now dv fv = (st2, effs2, exc2)" using cl by simp
    from update_not_ready_raises [OF this] show ?thesis
      using False by (simp add: kp stc unchanged_thresholds next_outside_stops)
  qed
  have nan: "list_ex isnan fv"
    if "\<not> all_eye_open st fv"
      and "list_all (\<lambda>v. isnan v \<or> between (eye_open_min st) v (eye_open_max st)) fv"
    using that
  proof (induction fv)
    case Nil
    then show ?case by (simp add: all_eye_open_def)
  next
    case (Cons v vs)
    then show ?case by (cases v) (auto simp: all_eye_open_def)
  qed
  have noeff: "effs = []" if "exc = Some StopIteration"
  proof -
    have e2: "exc2 = Some StopIteration" using that kp by simp
    have "effs2 = []"
    proof (cases "ready_for_operation st")
      case True
      then have "update_ready stc now dv fv = (st2, effs2, exc2)" using cl by simp
      then show ?thesis using e2 by (cases rule: update_ready_cases) simp_all
    next
      case False
      then have "update_not_ready stc now dv fv = (st2, effs2, exc2)" using cl by simp
      then show ?thesis using e2 by (cases rule: update_not_ready_cases) simp_all
    qed
    then show ?thesis using h e2 by (simp add: except_ValueError_simps)
  qed
  show ?thesis using main nan noeff by blast
qed


text \<open>Whatever the state and the line: if \<open>StopIteration\<close> leaves \<open>update\<close>, some filtered value is not neutral.\<close>

lemma stop_needs_non_neutral:
  assumes p: "parse_fields pf (split_tab line) = Inr dv" and l: "length dv = num_channels st"
    and cc: "condition_channels st dv [0..<num_channels st] [] = (stc, Inr fv)"
    and u: "update pf st now line = (st1, effs, Some StopIteration)"
  shows "\<not> all_eye_open st fv"
proof -
  have c: "initial_delay_complete st"
  proof (rule ccontr)
    assume "\<not> initial_delay_complete st"
    then show False using u
      by (auto simp: update_def start_initial_countdown_def Let_def split: if_splits)
  qed
  have nb: "line \<noteq> [CHR 0x0D, CHR 0x0A]" "line \<noteq> []" "line \<noteq> [CHR 0x0A]"
    using u c by (auto simp: update_def)
  obtain F D where stc: "stc = st\<lparr>filters := F, data := D\<rparr>"
    and upd: "update pf st now line =
           except_ValueError (if ready_for_operation st then update_ready stc now dv fv
                              else update_not_ready stc now dv fv)"
    using update_classified [OF c nb p l cc] by blast
  obtain st2 effs2 exc2 where cl: "(if ready_for_operation st then update_ready stc now dv fv
                              else update_not_ready stc now dv fv) = (st2, effs2, exc2)"
    by (cases "if ready_for_operation st then update_ready stc now dv fv
               else update_not_ready stc now dv fv") auto
  have h: "except_ValueError (st2, effs2, exc2) = (st1, effs, Some StopIteration)"
    using upd u cl by simp
  have e2: "exc2 = Some StopIteration" using except_ValueError_keeps(5) [OF h] by simp
  show ?thesis
  proof (cases "ready_for_operation st")
    case True
    then have "update_ready stc now dv fv = (st2, effs2, exc2)" using cl by simp
    from update_ready_logs(3) [OF this] show ?thesis
      using e2 by (simp add: stc unchanged_thresholds)
  next
    case False
    then have "update_not_ready stc now dv fv = (st2, effs2, exc2)" using cl by simp
    from update_not_ready_raises [OF this] show ?thesis
      using e2 by (simp add: stc unchanged_thresholds)
  qed
qed

text \<open>
  The claim as stated fails: there is no record with a raw value in an excursion band
  and every filtered value in the neutral band on which \<open>StopIteration\<close> is raised,
  because the neutral-band test sends such a record to the open rule.
\<close>

theorem no_stop_iteration_when_all_neutral:
  "\<not> (\<exists>pf st now line dv stc fv st1 effs.
        parse_fields pf (split_tab line) = Inr dv \<and> length dv = num_channels st
        \<and> condition_channels st dv [0..<num_channels st] [] = (stc, Inr fv)
        \<and> any_eye_blink st dv \<and> all_eye_open st fv
        \<and> update pf st now line = (st1, effs, Some StopIteration))"
  using stop_needs_non_neutral by blast

theorem trigger_selection_partial_witness:
  "initial_delay_complete session_ready \<and> ready_for_operation session_ready
   \<and> parse_fields float_fragment (split_tab line_nan_200) = Inr [NaN, Num 200]
   \<and> snd (condition_channels session_ready [NaN, Num 200]
             [0..<num_channels session_ready] []) = Inr [NaN, Num 100]
   \<and> print_delay session_ready \<le> 10 - last_print_time session_ready
   \<and> \<not> all_eye_open session_ready [NaN, Num 100]
   \<and> any_eye_blink session_ready [NaN, Num 200]
   \<and> list_all (\<lambda>v. isnan v \<or> between (eye_open_min session_ready) v (eye_open_max session_ready))
        [NaN, Num 100]
   \<and> snd (update float_fragment session_ready 10 line_nan_200) = ([], Some StopIteration)"
proof -
  have c: "initial_delay_complete session_ready"
    and r: "ready_for_operation session_ready"
    by (simp_all add: session_ready_def)
  have nb: "line_nan_200 \<noteq> [CHR 0x0D, CHR 0x0A]" "line_nan_200 \<noteq> []"
    "line_nan_200 \<noteq> [CHR 0x0A]"
    by (simp_all add: line_nan_200_def)
  have p: "parse_fields float_fragment (split_tab line_nan_200) = Inr [NaN, Num 200]"
    by (simp add: line_nan_200_def float_fragment_def)
  have l: "length [NaN, Num 200] = num_channels session_ready"
    by (simp add: session_ready_def session_start_def)
  have fv: "snd (condition_channels session_ready [NaN, Num 200]
             [0..<num_channels session_ready] []) = Inr [NaN, Num 100]"
    by (simp add: eval_defs)
  obtain stc where cc: "condition_channels session_ready [NaN, Num 200]
             [0..<num_channels session_ready] [] = (stc, Inr [NaN, Num 100])"
    using fv by (metis prod.collapse)
  have g: "print_delay session_ready \<le> 10 - last_print_time session_ready"
    "\<not> all_eye_open session_ready [NaN, Num 100]"
    "any_eye_blink session_ready [NaN, Num 200]"
    "list_all (\<lambda>v. isnan v \<or> between (eye_open_min session_ready) v (eye_open_max session_ready))
        [NaN, Num 100]"
    by (simp_all add: eval_defs)
  obtain st1 effs exc where u: "update float_fragment session_ready 10 line_nan_200 = (st1, effs, exc)"
    by (cases "update float_fragment session_ready 10 line_nan_200") auto
  show ?thesis
    using c r p fv g u trigger_selection_partial [OF c nb p l cc u]
    by auto
qed

end
